theory Spec2Isabelle
  imports Complex_Main "HOL-Library.Multiset" "HOL-Library.Log_Nat"
begin

section \<open>Values, errors and the Python primitives the pipeline uses\<close>

text \<open>
  The pipeline (\<^verbatim>\<open>utils/solana_client.py\<close>, \<^verbatim>\<open>utils/data_processor.py\<close>,
  \<^verbatim>\<open>utils/database.py\<close>) works on decoded JSON: dictionaries, lists, numbers, strings
  and \<^verbatim>\<open>None\<close>. A dictionary is an association list read with \<open>map_of\<close>.
  Python floats are modelled as rationals: no rounding, no NaN, no infinity.
\<close>

datatype json =
  JNone
  | JBool bool
  | JInt int
  | JFloat rat
  | JStr string
  | JList "json list"
  | JDict "(string \<times> json) list"

text \<open>
  Exceptions are values. \<open>RpcStatusFailure\<close>, \<open>RpcError\<close> and \<open>NetworkInfoFailure\<close>
  stand for the three \<^verbatim>\<open>Exception(f"...")\<close> objects the client builds, holding the
  data their message is formatted from. \<open>Unmodelled\<close> marks an operand on which Python
  does something the model does not follow (a string given to \<^verbatim>\<open>float()\<close>, a
  sequence multiplied by a number, a \<^verbatim>\<open>None\<close> cell coerced by pandas); it is
  never read as "Python raises".
\<close>

datatype py_error =
  AttributeError
  | TypeError
  | ValueError
  | IndexError
  | KeyError
  | ZeroDivisionError
  | ConnectionError
  | RpcStatusFailure int string
  | RpcError json
  | NetworkInfoFailure py_error
  | Unmodelled

definition and_then :: "py_error + 'a \<Rightarrow> ('a \<Rightarrow> py_error + 'b) \<Rightarrow> py_error + 'b" where
  "and_then m f = (case m of Inl e \<Rightarrow> Inl e | Inr x \<Rightarrow> f x)"

text \<open>A comprehension or \<^verbatim>\<open>for\<close> loop whose body may raise: the first error ends it.\<close>

fun for_each :: "('a \<Rightarrow> py_error + 'b) \<Rightarrow> 'a list \<Rightarrow> py_error + 'b list" where
  "for_each f [] = Inr []"
| "for_each f (x # xs) =
     and_then (f x) (\<lambda>y. and_then (for_each f xs) (\<lambda>ys. Inr (y # ys)))"

text \<open>\<^verbatim>\<open>d.get(key, default)\<close>: only a dictionary has the method.\<close>

fun dict_get :: "json \<Rightarrow> string \<Rightarrow> json \<Rightarrow> py_error + json" where
  "dict_get (JDict kvs) k d = Inr (case map_of kvs k of None \<Rightarrow> d | Some v \<Rightarrow> v)"
| "dict_get _ k d = Inl AttributeError"

text \<open>Truth value of an object, as \<^verbatim>\<open>if x\<close> and \<^verbatim>\<open>not x\<close> read it.\<close>

fun truthy :: "json \<Rightarrow> bool" where
  "truthy JNone = False"
| "truthy (JBool b) = b"
| "truthy (JInt n) = (n \<noteq> 0)"
| "truthy (JFloat r) = (r \<noteq> 0)"
| "truthy (JStr s) = (s \<noteq> [])"
| "truthy (JList xs) = (xs \<noteq> [])"
| "truthy (JDict kvs) = (kvs \<noteq> [])"

text \<open>The numeric value of a number (\<^verbatim>\<open>bool\<close> is a subclass of \<^verbatim>\<open>int\<close>).\<close>

fun num_val :: "json \<Rightarrow> rat option" where
  "num_val (JBool b) = Some (if b then 1 else 0)"
| "num_val (JInt n) = Some (of_int n)"
| "num_val (JFloat r) = Some r"
| "num_val _ = None"

fun int_val :: "json \<Rightarrow> int option" where
  "int_val (JBool b) = Some (if b then 1 else 0)"
| "int_val (JInt n) = Some n"
| "int_val _ = None"

text \<open>\<^verbatim>\<open>float(x)\<close>.\<close>

fun py_float :: "json \<Rightarrow> py_error + rat" where
  "py_float (JStr s) = Inl Unmodelled"
| "py_float v = (case num_val v of Some r \<Rightarrow> Inr r | None \<Rightarrow> Inl TypeError)"

text \<open>A number where arithmetic or a comparison with a number needs one.\<close>

definition as_num :: "json \<Rightarrow> py_error + rat" where
  "as_num v = (case num_val v of Some r \<Rightarrow> Inr r | None \<Rightarrow> Inl TypeError)"

text \<open>\<^verbatim>\<open>a - b\<close>: an \<^verbatim>\<open>int\<close> for two ints, a float when a float takes part.\<close>

definition py_sub :: "json \<Rightarrow> json \<Rightarrow> py_error + json" where
  "py_sub a b =
     (case (int_val a, int_val b) of
        (Some i, Some j) \<Rightarrow> Inr (JInt (i - j))
      | _ \<Rightarrow> (case (num_val a, num_val b) of
                 (Some x, Some y) \<Rightarrow> Inr (JFloat (x - y))
               | _ \<Rightarrow> Inl TypeError))"

text \<open>
  \<^verbatim>\<open>a * n\<close> for an \<^verbatim>\<open>int\<close> literal \<open>n\<close>: a string or list operand is repeated by
  Python, which the model does not follow.
\<close>

fun py_mul_int :: "json \<Rightarrow> int \<Rightarrow> py_error + json" where
  "py_mul_int (JStr s) n = Inl Unmodelled"
| "py_mul_int (JList xs) n = Inl Unmodelled"
| "py_mul_int a n =
     (case int_val a of
        Some i \<Rightarrow> Inr (JInt (i * n))
      | None \<Rightarrow> (case num_val a of Some x \<Rightarrow> Inr (JFloat (x * of_int n)) | None \<Rightarrow> Inl TypeError))"

text \<open>\<^verbatim>\<open>xs[i]\<close> for a literal index: negative indices count from the end.\<close>

definition list_index :: "'a list \<Rightarrow> int \<Rightarrow> py_error + 'a" where
  "list_index xs i =
     (if 0 \<le> i \<and> i < int (length xs) then Inr (xs ! nat i)
      else if i < 0 \<and> - int (length xs) \<le> i then Inr (xs ! nat (int (length xs) + i))
      else Inl IndexError)"

fun py_index :: "json \<Rightarrow> int \<Rightarrow> py_error + json" where
  "py_index (JList xs) i = list_index xs i"
| "py_index (JStr s) i = and_then (list_index s i) (\<lambda>c. Inr (JStr [c]))"
| "py_index (JDict kvs) i = Inl KeyError"
| "py_index _ i = Inl TypeError"

text \<open>\<^verbatim>\<open>len(x)\<close>.\<close>

fun py_len :: "json \<Rightarrow> py_error + nat" where
  "py_len (JList xs) = Inr (length xs)"
| "py_len (JStr s) = Inr (length s)"
| "py_len (JDict kvs) = Inr (length kvs)"
| "py_len _ = Inl TypeError"

text \<open>
  \<^verbatim>\<open>a + b\<close> where the code concatenates two lists. When neither operand is a
  list Python may still add them (two numbers, two strings): not followed here.
\<close>

definition list_concat :: "json \<Rightarrow> json \<Rightarrow> py_error + json list" where
  "list_concat a b =
     (case a of
        JList xs \<Rightarrow> (case b of JList ys \<Rightarrow> Inr (xs @ ys) | _ \<Rightarrow> Inl TypeError)
      | _ \<Rightarrow> (case b of JList ys \<Rightarrow> Inl TypeError | _ \<Rightarrow> Inl Unmodelled))"

text \<open>
  \<^verbatim>\<open>a == b\<close> on decoded JSON, as \<^verbatim>\<open>validator in current\<close> uses it: numbers by
  value across \<^verbatim>\<open>bool\<close>, \<^verbatim>\<open>int\<close> and \<^verbatim>\<open>float\<close>, lists element by element,
  dictionaries key by key.
\<close>

fun py_eq :: "json \<Rightarrow> json \<Rightarrow> bool" where
  "py_eq JNone JNone = True"
| "py_eq (JStr s) (JStr t) = (s = t)"
| "py_eq (JList xs) (JList ys) = list_all2 py_eq xs ys"
| "py_eq (JDict xs) (JDict ys) =
     (set (map fst xs) = set (map fst ys) \<and>
      (\<forall>(k, v) \<in> set xs. \<forall>(k', w) \<in> set ys. k = k' \<longrightarrow> py_eq v w))"
| "py_eq a b = (case (num_val a, num_val b) of (Some x, Some y) \<Rightarrow> x = y | _ \<Rightarrow> False)"


text \<open>\<^verbatim>\<open>x in xs\<close> for a list: identity or equality with an element.\<close>

fun py_in :: "json \<Rightarrow> json \<Rightarrow> py_error + bool" where
  "py_in x (JList xs) = Inr (list_ex (\<lambda>c. c = x \<or> py_eq c x) xs)"
| "py_in x (JStr s) = Inl TypeError"
| "py_in x (JDict kvs) = Inl Unmodelled"
| "py_in x _ = Inl TypeError"

section \<open>Validator aggregation (\<^verbatim>\<open>DataProcessor._process_validators\<close>)\<close>

text \<open>
  One element of \<^verbatim>\<open>processed_data\<close>; the data frame built from the list has one
  row per element, and \<^verbatim>\<open>df.empty\<close> holds when the list is empty.
\<close>

record validator_entry =
  nodePubkey :: json
  votePubkey :: json
  activatedStake :: rat
  stakePercentage :: rat
  commission :: json
  lastVote :: json
  rootSlot :: json
  credits :: json
  status :: string

text \<open>A row of the returned frame: the two columns added when the frame is not empty.\<close>

record validator_row = validator_entry +
  rank :: int
  estimatedAPY :: rat

text \<open>\<^verbatim>\<open>float(v.get('activatedStake', 0)) / 10**9\<close>.\<close>

definition activated_stake_sol :: "json \<Rightarrow> py_error + rat" where
  "activated_stake_sol v =
     and_then (dict_get v ''activatedStake'' (JInt 0)) (\<lambda>s.
     and_then (py_float s) (\<lambda>f. Inr (f / 10 ^ 9)))"

text \<open>
  \<^verbatim>\<open>epoch_credits[-1][1] - epoch_credits[-1][0] if epoch_credits else 0\<close>, the left
  operand of the subtraction evaluated first.
\<close>

definition current_epoch_credits :: "json \<Rightarrow> py_error + json" where
  "current_epoch_credits validator =
     and_then (dict_get validator ''epochCredits'' (JList [])) (\<lambda>epoch_credits.
     if truthy epoch_credits then
       and_then (py_index epoch_credits (- 1)) (\<lambda>l1.
       and_then (py_index l1 1) (\<lambda>b.
       and_then (py_index epoch_credits (- 1)) (\<lambda>l0.
       and_then (py_index l0 0) (\<lambda>a.
       py_sub b a))))
     else Inr (JInt 0))"

text \<open>The body of the loop over \<^verbatim>\<open>all_validators\<close>.\<close>

definition process_validator :: "json \<Rightarrow> rat \<Rightarrow> json \<Rightarrow> py_error + validator_entry" where
  "process_validator validators_info total_active_stake validator =
     and_then (activated_stake_sol validator) (\<lambda>stake_sol.
     let stake_percentage =
           (if total_active_stake > 0 then stake_sol / total_active_stake * 100 else 0) in
     and_then (current_epoch_credits validator) (\<lambda>current_credits.
     and_then (dict_get validators_info ''current'' (JList [])) (\<lambda>cur.
     and_then (py_in validator cur) (\<lambda>is_current.
     and_then (dict_get validator ''nodePubkey'' (JStr ''Unknown'')) (\<lambda>node.
     and_then (dict_get validator ''votePubkey'' (JStr ''Unknown'')) (\<lambda>vote.
     and_then (dict_get validator ''commission'' (JInt 0)) (\<lambda>comm.
     and_then (dict_get validator ''lastVote'' (JInt 0)) (\<lambda>last_vote.
     and_then (dict_get validator ''rootSlot'' (JInt 0)) (\<lambda>root_slot.
     Inr \<lparr> nodePubkey = node, votePubkey = vote, activatedStake = stake_sol,
           stakePercentage = stake_percentage, commission = comm, lastVote = last_vote,
           rootSlot = root_slot, credits = current_credits,
           status = (if is_current then ''Active'' else ''Delinquent'') \<rparr>)))))))))"

text \<open>
  \<^verbatim>\<open>Series.rank(ascending=False, method='min').astype(int)\<close>: one more than the
  number of strictly larger values of the column.
\<close>

definition rank_min_desc :: "rat list \<Rightarrow> rat \<Rightarrow> int" where
  "rank_min_desc column x = 1 + int (length (filter (\<lambda>y. x < y) column))"

text \<open>\<^verbatim>\<open>.round(2)\<close>: to two decimals, a tie going to the even neighbour.\<close>

definition round_half_even :: "rat \<Rightarrow> int" where
  "round_half_even x =
     (let f = \<lfloor>x\<rfloor>; d = x - of_int f
      in if d < 1 / 2 then f else if 1 / 2 < d then f + 1 else if even f then f else f + 1)"

definition round2 :: "rat \<Rightarrow> rat" where
  "round2 x = of_int (round_half_even (x * 100)) / 100"

text \<open>
  \<^verbatim>\<open>(inflation_rate * (1 - df['commission'] / 100)).round(2)\<close> for one row. The
  column arithmetic of pandas is followed on numbers only.
\<close>

definition estimated_apy :: "json \<Rightarrow> json \<Rightarrow> py_error + rat" where
  "estimated_apy inflation_rate comm =
     (case num_val comm of
        None \<Rightarrow> Inl Unmodelled
      | Some c \<Rightarrow>
          (case num_val inflation_rate of
             None \<Rightarrow> Inl Unmodelled
           | Some r \<Rightarrow> Inr (round2 (r * (1 - c / 100)))))"

text \<open>
  \<^verbatim>\<open>validators_info.get('current', []) + validators_info.get('delinquent', [])\<close>.
\<close>

definition all_validators :: "json \<Rightarrow> py_error + json list" where
  "all_validators validators_info =
     and_then (dict_get validators_info ''current'' (JList [])) (\<lambda>cur.
     and_then (dict_get validators_info ''delinquent'' (JList [])) (\<lambda>del.
     list_concat cur del))"

text \<open>
  \<^verbatim>\<open>self.network_info.get('inflation_rate', {}).get('total', 8.0)\<close>: the inflation
  rate the yield estimate uses.
\<close>

definition apy_inflation_rate :: "json \<Rightarrow> py_error + json" where
  "apy_inflation_rate network_info =
     and_then (dict_get network_info ''inflation_rate'' (JDict [])) (\<lambda>rates.
     dict_get rates ''total'' (JFloat 8))"

definition process_validators :: "json \<Rightarrow> json \<Rightarrow> py_error + validator_row list" where
  "process_validators validators_info network_info =
     and_then (all_validators validators_info) (\<lambda>vs.
     and_then (for_each activated_stake_sol vs) (\<lambda>stakes.
     let total_active_stake = sum_list stakes in
     and_then (for_each (process_validator validators_info total_active_stake) vs)
       (\<lambda>processed_data.
     if processed_data = [] then Inr []
     else
       and_then (apy_inflation_rate network_info) (\<lambda>inflation_rate.
       for_each (\<lambda>e.
           and_then (estimated_apy inflation_rate (commission e)) (\<lambda>apy.
           Inr (validator_entry.extend e
                  \<lparr> rank = rank_min_desc (map activatedStake processed_data) (activatedStake e),
                    estimatedAPY = apy \<rparr>)))
         processed_data))))"

section \<open>Stake distribution (\<^verbatim>\<open>DataProcessor._process_stake_accounts\<close>)\<close>

record stake_account =
  pubkey :: json
  balance :: rat
  parsed :: json

text \<open>
  The processed stake information: totals, the \<^verbatim>\<open>distribution\<close> dictionary (its three
  parallel lists) and the accounts.
\<close>

record stake_info =
  total_stake :: rat
  total_accounts :: nat
  categories :: "string list"
  counts :: "nat list"
  amounts :: "rat list"
  accounts :: "stake_account list"

text \<open>
  \<^verbatim>\<open>data.get('parsed', {}).get('info', {})\<close> when \<^verbatim>\<open>data\<close> is a dictionary with
  the key \<^verbatim>\<open>parsed\<close>, else \<^verbatim>\<open>None\<close>.
\<close>

definition parsed_info :: "json \<Rightarrow> py_error + json" where
  "parsed_info data =
     (case data of
        JDict kvs \<Rightarrow>
          (if ''parsed'' \<in> set (map fst kvs)
           then and_then (dict_get data ''parsed'' (JDict [])) (\<lambda>p. dict_get p ''info'' (JDict []))
           else Inr JNone)
      | _ \<Rightarrow> Inr JNone)"

text \<open>The body of the loop over \<^verbatim>\<open>self.stake_accounts\<close>.\<close>

definition stake_account_of :: "json \<Rightarrow> py_error + stake_account" where
  "stake_account_of account =
     and_then (dict_get account ''pubkey'' (JStr ''Unknown'')) (\<lambda>key.
     and_then (dict_get account ''account'' (JDict [])) (\<lambda>account_data.
     and_then (dict_get account_data ''lamports'' (JInt 0)) (\<lambda>lamports.
     and_then (as_num lamports) (\<lambda>l.
     and_then (dict_get account_data ''data'' (JDict [])) (\<lambda>data.
     and_then (parsed_info data) (\<lambda>parsed_data.
     Inr \<lparr> pubkey = key, balance = l / 10 ^ 9, parsed = parsed_data \<rparr>))))))"

text \<open>
  \<^verbatim>\<open>for account in self.stake_accounts\<close>: a list gives its elements; a dictionary or
  a string gives keys or characters, on which \<^verbatim>\<open>.get\<close> fails; a number cannot be
  iterated.
\<close>

fun stake_accounts_data :: "json \<Rightarrow> py_error + stake_account list" where
  "stake_accounts_data (JList xs) = for_each stake_account_of xs"
| "stake_accounts_data (JDict kvs) = (if kvs = [] then Inr [] else Inl AttributeError)"
| "stake_accounts_data (JStr s) = (if s = [] then Inr [] else Inl AttributeError)"
| "stake_accounts_data _ = Inl TypeError"

text \<open>
  \<^verbatim>\<open>pd.cut(balance, [0, 100, 1000, 10000, 100000, inf], labels=labels, right=False)\<close>:
  the index of the half-open interval holding the balance, none below 0.
\<close>

definition labels :: "string list" where
  "labels = [''0-100'', ''100-1K'', ''1K-10K'', ''10K-100K'', ''100K+'']"

definition cut :: "rat \<Rightarrow> nat option" where
  "cut x =
     (if x < 0 then None
      else if x < 100 then Some 0
      else if x < 1000 then Some 1
      else if x < 10000 then Some 2
      else if x < 100000 then Some 3
      else Some 4)"

text \<open>
  \<^verbatim>\<open>groupby('stake_size_category').agg(count=(col, 'count'), total_sol=('balance', 'sum'))\<close>,
  one group per label in label order (empty groups included, the pandas default for a
  categorical key). \<^verbatim>\<open>count\<close> counts the cells of its column that are not null.
\<close>

definition group_count :: "(stake_account \<Rightarrow> bool) \<Rightarrow> stake_account list \<Rightarrow> nat \<Rightarrow> nat" where
  "group_count not_null df k =
     length (filter (\<lambda>a. cut (balance a) = Some k \<and> not_null a) df)"

definition group_total_sol :: "stake_account list \<Rightarrow> nat \<Rightarrow> rat" where
  "group_total_sol df k = sum_list (map balance (filter (\<lambda>a. cut (balance a) = Some k) df))"

definition process_stake_accounts :: "json \<Rightarrow> py_error + stake_info" where
  "process_stake_accounts stake_accounts =
     (if \<not> truthy stake_accounts then
        Inr \<lparr> total_stake = 0, total_accounts = 0, categories = [], counts = [], amounts = [],
              accounts = [] \<rparr>
      else
        and_then (stake_accounts_data stake_accounts) (\<lambda>df.
        if df \<noteq> [] then
          Inr \<lparr> total_stake = sum_list (map balance df),
                total_accounts = length df,
                categories = labels,
                counts = map (group_count (\<lambda>a. pubkey a \<noteq> JNone) df) [0 ..< length labels],
                amounts = map (group_total_sol df) [0 ..< length labels],
                accounts = take 100 df \<rparr>
        else
          Inr \<lparr> total_stake = 0, total_accounts = 0, categories = [], counts = [], amounts = [],
                accounts = take 100 df \<rparr>))"

section \<open>Network aggregation (\<^verbatim>\<open>DataProcessor._process_network_info\<close>)\<close>

text \<open>
  The returned dictionary, flattened. Values passed through from the input keep their
  JSON form; computed numbers are rationals. The \<^verbatim>\<open>updated_at\<close> clock reading is
  left out.
\<close>

record network_summary =
  epoch_current :: json
  epoch_slots_in_epoch :: json
  epoch_slot_index :: json
  epoch_progress_percentage :: rat
  epoch_hours_remaining :: rat
  inflation_total :: json
  inflation_validator :: json
  inflation_foundation :: json
  inflation_epoch :: json
  supply_total :: rat
  supply_circulating :: rat
  supply_staked :: rat
  supply_staking_ratio :: rat
  validators_active :: nat
  validators_delinquent :: nat
  validators_total :: nat
  concentration_top10 :: rat
  concentration_top20 :: rat
  concentration_top50 :: rat
  performance_current_slot :: json
  performance_node_count :: nat

text \<open>\<^verbatim>\<open>(slot_index / slots_in_epoch * 100) if slots_in_epoch > 0 else 0\<close>.\<close>

definition epoch_progress :: "json \<Rightarrow> json \<Rightarrow> py_error + rat" where
  "epoch_progress slot_index slots_in_epoch =
     and_then (as_num slots_in_epoch) (\<lambda>n.
     if 0 < n then and_then (as_num slot_index) (\<lambda>i. Inr (i / n * 100)) else Inr 0)"

text \<open>
  Lines 100 to 103: \<^verbatim>\<open>seconds_per_slot = 0.4\<close>, and the remaining slots times it,
  in hours.
\<close>

definition seconds_per_slot :: rat where
  "seconds_per_slot = 4 / 10"

definition hours_remaining :: "json \<Rightarrow> json \<Rightarrow> py_error + rat" where
  "hours_remaining slot_index slots_in_epoch =
     and_then (py_sub slots_in_epoch slot_index) (\<lambda>slots_remaining.
     and_then (as_num slots_remaining) (\<lambda>r.
     Inr (r * seconds_per_slot / 3600)))"

text \<open>
  \<^verbatim>\<open>float(supply_info.get('value', {}).get(key, 0)) / 10**9 if supply_info.get('value') else 0\<close>.
\<close>

definition supply_figure :: "json \<Rightarrow> string \<Rightarrow> py_error + rat" where
  "supply_figure supply_info k =
     and_then (dict_get supply_info ''value'' JNone) (\<lambda>present.
     if truthy present then
       and_then (dict_get supply_info ''value'' (JDict [])) (\<lambda>v.
       and_then (dict_get v k (JInt 0)) (\<lambda>x.
       and_then (py_float x) (\<lambda>f. Inr (f / 10 ^ 9))))
     else Inr 0)"

text \<open>
  \<^verbatim>\<open>validators_df.sort_values('activatedStake', ascending=False).head(n)['activatedStake'].sum()
  / total_staked * 100 if total_staked > 0 else 0\<close>, over exact rationals. The code
  computes it in double precision, adding the column in table order for
  \<^verbatim>\<open>total_staked\<close> and in sorted order for the head; the section on
  double-precision arithmetic below follows these lines with every operation rounded.
\<close>

definition stake_top :: "nat \<Rightarrow> validator_row list \<Rightarrow> rat \<Rightarrow> rat" where
  "stake_top n validators_df total_staked =
     (if 0 < total_staked
      then sum_list (take n (rev (sort (map activatedStake validators_df)))) / total_staked * 100
      else 0)"

definition process_network_info :: "json \<Rightarrow> validator_row list \<Rightarrow> py_error + network_summary" where
  "process_network_info network_info validators_df =
     and_then (dict_get network_info ''epoch_info'' (JDict [])) (\<lambda>epoch_info.
     and_then (dict_get epoch_info ''epoch'' (JInt 0)) (\<lambda>current_epoch.
     and_then (dict_get epoch_info ''slotsInEpoch'' (JInt 0)) (\<lambda>slots_in_epoch.
     and_then (dict_get epoch_info ''slotIndex'' (JInt 0)) (\<lambda>slot_index.
     and_then (epoch_progress slot_index slots_in_epoch) (\<lambda>progress.
     and_then (hours_remaining slot_index slots_in_epoch) (\<lambda>hours.
     and_then (dict_get network_info ''inflation_rate'' (JDict [])) (\<lambda>inflation_rate.
     and_then (dict_get network_info ''supply_info'' (JDict [])) (\<lambda>supply_info.
     and_then (supply_figure supply_info ''total'') (\<lambda>total_supply.
     and_then (supply_figure supply_info ''circulating'') (\<lambda>circulating_supply.
     let total_staked = (if validators_df \<noteq> [] then sum_list (map activatedStake validators_df) else 0);
         staking_ratio =
           (if 0 < circulating_supply then total_staked / circulating_supply * 100 else 0);
         active_validators =
           (if validators_df \<noteq> [] then length (filter (\<lambda>r. status r = ''Active'') validators_df) else 0);
         delinquent_validators =
           (if validators_df \<noteq> [] then length (filter (\<lambda>r. status r = ''Delinquent'') validators_df)
            else 0);
         stake_top10 = (if validators_df \<noteq> [] then stake_top 10 validators_df total_staked else 0);
         stake_top20 = (if validators_df \<noteq> [] then stake_top 20 validators_df total_staked else 0);
         stake_top50 = (if validators_df \<noteq> [] then stake_top 50 validators_df total_staked else 0)
     in
     and_then (dict_get network_info ''cluster_nodes'' (JList [])) (\<lambda>cluster_nodes.
     and_then (dict_get network_info ''slot_info'' (JInt 0)) (\<lambda>current_slot.
     and_then (dict_get inflation_rate ''total'' (JInt 0)) (\<lambda>i_total.
     and_then (dict_get inflation_rate ''validator'' (JInt 0)) (\<lambda>i_validator.
     and_then (dict_get inflation_rate ''foundation'' (JInt 0)) (\<lambda>i_foundation.
     and_then (py_len cluster_nodes) (\<lambda>node_count.
     Inr \<lparr> epoch_current = current_epoch,
           epoch_slots_in_epoch = slots_in_epoch,
           epoch_slot_index = slot_index,
           epoch_progress_percentage = progress,
           epoch_hours_remaining = hours,
           inflation_total = i_total,
           inflation_validator = i_validator,
           inflation_foundation = i_foundation,
           inflation_epoch = current_epoch,
           supply_total = total_supply,
           supply_circulating = circulating_supply,
           supply_staked = total_staked,
           supply_staking_ratio = staking_ratio,
           validators_active = active_validators,
           validators_delinquent = delinquent_validators,
           validators_total = active_validators + delinquent_validators,
           concentration_top10 = stake_top10,
           concentration_top20 = stake_top20,
           concentration_top50 = stake_top50,
           performance_current_slot = current_slot,
           performance_node_count = node_count \<rparr>))))))))))))))))"

section \<open>Double-precision arithmetic\<close>

text \<open>
  Python's \<^verbatim>\<open>float\<close> is the IEEE 754 double: 53 significant bits, the result of each
  operation rounded to the nearest representable number, a tie going to the one with an
  even significand. The aggregations above are modelled over exact rationals; this
  section follows the lines of the concentration computation once more with every
  operation rounded, for values away from overflow and from the subnormal range.
\<close>

definition pow2 :: "int \<Rightarrow> rat" where
  "pow2 k = (if 0 \<le> k then 2 ^ nat k else 1 / 2 ^ nat (- k))"

text \<open>
  The position of the leading bit of a number other than 0: the largest \<open>k\<close> with
  \<^verbatim>\<open>2**k <= abs(x)\<close>.\<close>

definition binary_exponent :: "rat \<Rightarrow> int" where
  "binary_exponent x =
     (let k = bitlen (fst (quotient_of \<bar>x\<bar>)) - bitlen (snd (quotient_of \<bar>x\<bar>))
      in if pow2 k \<le> \<bar>x\<bar> then k else k - 1)"

text \<open>The double nearest to a rational.\<close>

definition to_double :: "rat \<Rightarrow> rat" where
  "to_double x =
     (if x = 0 then 0
      else let ulp = pow2 (binary_exponent x - 52) in of_int (round_half_even (x / ulp)) * ulp)"

definition float_add :: "rat \<Rightarrow> rat \<Rightarrow> rat" where
  "float_add x y = to_double (x + y)"

definition float_div :: "rat \<Rightarrow> rat \<Rightarrow> rat" where
  "float_div x y = to_double (x / y)"

definition float_mul :: "rat \<Rightarrow> rat \<Rightarrow> rat" where
  "float_mul x y = to_double (x * y)"

text \<open>\<^verbatim>\<open>Series.sum()\<close> of a short column: the cells added one after the other.\<close>

definition float_sum :: "rat list \<Rightarrow> rat" where
  "float_sum column = foldl float_add 0 column"

text \<open>\<^verbatim>\<open>float(v.get('activatedStake', 0)) / 10**9\<close> for an integer amount.\<close>

definition float_stake_sol :: "int \<Rightarrow> rat" where
  "float_stake_sol lamports = float_div (to_double (of_int lamports)) (10 ^ 9)"

text \<open>
  Lines 115 and 122 to 127 on a table that is not empty:
  \<^verbatim>\<open>total_staked = validators_df['activatedStake'].sum()\<close> and
  \<^verbatim>\<open>validators_df_sorted.head(n)['activatedStake'].sum() / total_staked * 100
  if total_staked > 0 else 0\<close>.
\<close>

definition float_stake_top :: "nat \<Rightarrow> rat list \<Rightarrow> rat" where
  "float_stake_top n column =
     (let total_staked = float_sum column
      in if 0 < total_staked
         then float_mul (float_div (float_sum (take n (rev (sort column)))) total_staked) 100
         else 0)"

section \<open>The aggregator (\<^verbatim>\<open>DataProcessor.__init__\<close>)\<close>

record processed =
  processed_validators :: "validator_row list"
  processed_network_info :: network_summary
  processed_stake_info :: stake_info

text \<open>The constructor runs the three aggregations in this order; the first error ends it.\<close>

definition DataProcessor :: "json \<Rightarrow> json \<Rightarrow> json \<Rightarrow> py_error + processed" where
  "DataProcessor validators_info network_info stake_accounts =
     and_then (process_validators validators_info network_info) (\<lambda>validators_df.
     and_then (process_network_info network_info validators_df) (\<lambda>network.
     and_then (process_stake_accounts stake_accounts) (\<lambda>stake.
     Inr \<lparr> processed_validators = validators_df,
           processed_network_info = network,
           processed_stake_info = stake \<rparr>)))"

section \<open>The cache store (\<^verbatim>\<open>utils/database.py\<close>)\<close>

text \<open>
  The three tables, each a list of rows in insertion order, and the availability flag
  of the module. Rows are stamped with the clock at insertion, so the row with the
  latest timestamp is the last one. Columns the model reads as numbers are not null.
  A failing database session is not modelled: every function of the module catches it
  and returns \<^verbatim>\<open>None\<close> or leaves the tables as they were.
\<close>

record validator_info_rec =
  vi_epoch :: json
  vi_node_pubkey :: json
  vi_vote_pubkey :: json
  vi_activated_stake :: rat
  vi_stake_percentage :: json
  vi_commission :: json
  vi_last_vote :: json
  vi_root_slot :: json
  vi_credits :: json
  vi_status :: json

record stake_account_rec =
  sa_epoch :: json
  sa_pubkey :: json
  sa_balance :: rat
  sa_parsed_data :: "json option"

text \<open>
  A row of \<^verbatim>\<open>network_info\<close> is kept as its \<^verbatim>\<open>data_json\<close> column (the whole
  dictionary); the other columns are copies of fields of it.
\<close>

record store =
  database_available :: bool
  validator_info_table :: "validator_info_rec list"
  network_info_table :: "json list"
  stake_accounts_table :: "stake_account_rec list"

text \<open>\<^verbatim>\<open>d[key]\<close> for a string key.\<close>

fun py_getitem :: "json \<Rightarrow> string \<Rightarrow> py_error + json" where
  "py_getitem (JDict kvs) k = (case map_of kvs k of None \<Rightarrow> Inl KeyError | Some v \<Rightarrow> Inr v)"
| "py_getitem _ k = Inl TypeError"

text \<open>The fields \<^verbatim>\<open>store_network_info\<close> subscripts to fill the columns, in its order.\<close>

definition network_columns :: "(string \<times> string) list" where
  "network_columns =
     [(''epoch'', ''current''), (''epoch'', ''slots_in_epoch''), (''epoch'', ''slot_index''),
      (''epoch'', ''progress_percentage''), (''epoch'', ''hours_remaining''),
      (''inflation'', ''total''), (''inflation'', ''validator''), (''inflation'', ''foundation''),
      (''supply'', ''total''), (''supply'', ''circulating''), (''supply'', ''staked''),
      (''supply'', ''staking_ratio''), (''validators'', ''active''),
      (''validators'', ''delinquent''), (''performance'', ''current_slot'')]"

text \<open>
  \<^verbatim>\<open>store_network_info\<close>: nothing without a database or data; an exception while
  the record is built rolls back, so nothing is written.
\<close>

definition store_network_info :: "json \<Rightarrow> store \<Rightarrow> store" where
  "store_network_info network_data st =
     (if \<not> database_available st \<or> network_data = JNone then st
      else
        (case for_each (\<lambda>(a, b). and_then (py_getitem network_data a) (\<lambda>d. py_getitem d b))
                network_columns of
           Inl e \<Rightarrow> st
         | Inr cols \<Rightarrow> st\<lparr> network_info_table := network_info_table st @ [network_data] \<rparr>))"

text \<open>
  \<^verbatim>\<open>store_stake_accounts\<close>, given the processed stake information: one row per
  account of its \<^verbatim>\<open>accounts\<close> list.
\<close>

definition store_stake_accounts :: "stake_info \<Rightarrow> json \<Rightarrow> store \<Rightarrow> store" where
  "store_stake_accounts stake_data epoch st =
     (if \<not> database_available st \<or> accounts stake_data = [] then st
      else
        st\<lparr> stake_accounts_table :=
              stake_accounts_table st @
              map (\<lambda>a. \<lparr> sa_epoch = epoch, sa_pubkey = pubkey a, sa_balance = balance a,
                         sa_parsed_data = (if truthy (parsed a) then Some (parsed a) else None) \<rparr>)
                  (accounts stake_data) \<rparr>)"

text \<open>
  \<^verbatim>\<open>get_latest_validators_data\<close>: the rows of the latest epoch, each with its rank in
  the stake column (the same \<^verbatim>\<open>rank(ascending=False, method='min')\<close> as the aggregator).
\<close>

definition get_latest_validators_data :: "store \<Rightarrow> (validator_info_rec \<times> int) list option" where
  "get_latest_validators_data st =
     (if \<not> database_available st then None
      else if validator_info_table st = [] then None
      else
        (let latest_epoch = vi_epoch (last (validator_info_table st));
             validators = filter (\<lambda>v. vi_epoch v = latest_epoch) (validator_info_table st)
         in if validators = [] then None
            else Some (map (\<lambda>v. (v, rank_min_desc (map vi_activated_stake validators)
                                         (vi_activated_stake v)))
                           validators)))"

definition get_latest_network_info :: "store \<Rightarrow> json option" where
  "get_latest_network_info st =
     (if \<not> database_available st then None
      else if network_info_table st = [] then None
      else Some (last (network_info_table st)))"

text \<open>
  \<^verbatim>\<open>get_latest_stake_data(limit)\<close>: at most \<open>limit\<close> accounts of the latest epoch and
  their distribution. Here \<^verbatim>\<open>count\<close> is taken on the balance column.
\<close>

definition get_latest_stake_data :: "nat \<Rightarrow> store \<Rightarrow> stake_info option" where
  "get_latest_stake_data limit st =
     (if \<not> database_available st then None
      else if stake_accounts_table st = [] then None
      else
        (let latest_epoch = sa_epoch (last (stake_accounts_table st));
             rows = take limit (filter (\<lambda>r. sa_epoch r = latest_epoch) (stake_accounts_table st));
             accounts_data =
               map (\<lambda>r. \<lparr> pubkey = sa_pubkey r, balance = sa_balance r,
                          parsed = (case sa_parsed_data r of None \<Rightarrow> JNone | Some d \<Rightarrow> d) \<rparr>) rows
         in if rows = [] then None
            else Some \<lparr> total_stake = sum_list (map balance accounts_data),
                        total_accounts = length accounts_data,
                        categories = labels,
                        counts = map (group_count (\<lambda>a. True) accounts_data) [0 ..< length labels],
                        amounts = map (group_total_sol accounts_data) [0 ..< length labels],
                        accounts = accounts_data \<rparr>))"

section \<open>The RPC gateway and the fetches (\<^verbatim>\<open>utils/solana_client.py\<close>)\<close>

text \<open>
  What \<^verbatim>\<open>requests.post\<close> returns: the status, the body as text and the body decoded
  as JSON (none when it is not JSON). The remote endpoint is a function from the method
  and its parameters to a response or a transport exception.
\<close>

record response =
  resp_status_code :: int
  resp_text :: string
  resp_json :: "json option"

type_synonym transport = "string \<Rightarrow> json \<Rightarrow> py_error + response"

text \<open>
  The end of \<^verbatim>\<open>_make_rpc_request\<close>: \<^verbatim>\<open>"error" in result\<close> raises the RPC error,
  otherwise \<^verbatim>\<open>result["result"]\<close>. A decoded body that is not a dictionary fails with
  \<^verbatim>\<open>TypeError\<close> at the membership test or at the subscript.
\<close>

fun rpc_unwrap :: "json \<Rightarrow> py_error + json" where
  "rpc_unwrap (JDict kvs) =
     (case map_of kvs ''error'' of
        Some e \<Rightarrow> Inl (RpcError e)
      | None \<Rightarrow> (case map_of kvs ''result'' of Some r \<Rightarrow> Inr r | None \<Rightarrow> Inl KeyError))"
| "rpc_unwrap _ = Inl TypeError"

definition make_rpc_request :: "transport \<Rightarrow> string \<Rightarrow> json \<Rightarrow> py_error + json" where
  "make_rpc_request post method params =
     and_then (post method (if truthy params then params else JList [])) (\<lambda>response.
     if resp_status_code response \<noteq> 200
     then Inl (RpcStatusFailure (resp_status_code response) (resp_text response))
     else
       and_then (case resp_json response of None \<Rightarrow> Inl ValueError | Some r \<Rightarrow> Inr r) rpc_unwrap)"

definition get_epoch_info :: "transport \<Rightarrow> py_error + json" where
  "get_epoch_info post = make_rpc_request post ''getEpochInfo'' JNone"

definition get_inflation_rate :: "transport \<Rightarrow> py_error + json" where
  "get_inflation_rate post = make_rpc_request post ''getInflationRate'' JNone"

definition get_supply :: "transport \<Rightarrow> py_error + json" where
  "get_supply post = make_rpc_request post ''getSupply'' JNone"

text \<open>\<^verbatim>\<open>DataFrame.to_dict("records")\<close> for one cached validator row.\<close>

definition validator_record :: "validator_info_rec \<times> int \<Rightarrow> json" where
  "validator_record vr =
     (case vr of (v, k) \<Rightarrow>
        JDict [(''nodePubkey'', vi_node_pubkey v), (''votePubkey'', vi_vote_pubkey v),
               (''activatedStake'', JFloat (vi_activated_stake v)),
               (''stakePercentage'', vi_stake_percentage v), (''commission'', vi_commission v),
               (''lastVote'', vi_last_vote v), (''rootSlot'', vi_root_slot v),
               (''credits'', vi_credits v), (''status'', vi_status v), (''rank'', JInt k)])"

definition get_validators :: "transport \<Rightarrow> bool \<Rightarrow> store \<Rightarrow> py_error + json" where
  "get_validators post use_cache st =
     (case (if use_cache then get_latest_validators_data st else None) of
        Some cached_data \<Rightarrow>
          Inr (JDict
            [(''current'',
                JList (map validator_record
                         (filter (\<lambda>(v, k). vi_status v = JStr ''current'') cached_data))),
             (''delinquent'',
                JList (map validator_record
                         (filter (\<lambda>(v, k). vi_status v = JStr ''delinquent'') cached_data)))])
      | None \<Rightarrow> make_rpc_request post ''getVoteAccounts'' JNone)"

text \<open>
  The same progress expression as the aggregator's, and lines 146 to 148:
  \<^verbatim>\<open>hours_remaining = slots_remaining * 2 / 3600\<close> ("assuming avg 2 seconds per slot").
\<close>

definition fetch_epoch_progress :: "json \<Rightarrow> json \<Rightarrow> py_error + json" where
  "fetch_epoch_progress slot_index slots_in_epoch =
     and_then (as_num slots_in_epoch) (\<lambda>n.
     if 0 < n then and_then (as_num slot_index) (\<lambda>i. Inr (JFloat (i / n * 100))) else Inr (JInt 0))"

definition fetch_hours_remaining :: "json \<Rightarrow> json \<Rightarrow> py_error + json" where
  "fetch_hours_remaining slot_index slots_in_epoch =
     and_then (py_sub slots_in_epoch slot_index) (\<lambda>slots_remaining.
     and_then (as_num slots_remaining) (\<lambda>r.
     Inr (JFloat (r * 2 / 3600))))"

text \<open>\<^verbatim>\<open>float(supply_info.get("value", {}).get(key, 0)) / 1e9\<close>.\<close>

definition fetch_supply :: "json \<Rightarrow> string \<Rightarrow> py_error + rat" where
  "fetch_supply supply_info k =
     and_then (dict_get supply_info ''value'' (JDict [])) (\<lambda>v.
     and_then (dict_get v k (JInt 0)) (\<lambda>x.
     and_then (py_float x) (\<lambda>f. Inr (f / 10 ^ 9))))"

text \<open>\<^verbatim>\<open>inflation_rate.get(key, 0) * 100\<close>.\<close>

definition fetch_inflation :: "json \<Rightarrow> string \<Rightarrow> py_error + json" where
  "fetch_inflation inflation_rate k =
     and_then (dict_get inflation_rate k (JInt 0)) (\<lambda>x. py_mul_int x 100)"

text \<open>
  The body of the \<^verbatim>\<open>try\<close> block of \<^verbatim>\<open>get_network_info\<close> up to the dictionary
  \<^verbatim>\<open>processed_data\<close>.
\<close>

definition fetch_network_info :: "transport \<Rightarrow> bool \<Rightarrow> store \<Rightarrow> py_error + json" where
  "fetch_network_info post use_cache st =
     and_then (get_epoch_info post) (\<lambda>epoch_info.
     and_then (get_inflation_rate post) (\<lambda>inflation_rate.
     and_then (get_supply post) (\<lambda>supply_info.
     and_then (make_rpc_request post ''getSlot'' JNone) (\<lambda>slot_info.
     and_then (make_rpc_request post ''getClusterNodes'' JNone) (\<lambda>cluster_nodes.
     and_then (dict_get epoch_info ''epoch'' (JInt 0)) (\<lambda>current_epoch.
     and_then (dict_get epoch_info ''slotsInEpoch'' (JInt 0)) (\<lambda>slots_in_epoch.
     and_then (dict_get epoch_info ''slotIndex'' (JInt 0)) (\<lambda>slot_index.
     and_then (fetch_epoch_progress slot_index slots_in_epoch) (\<lambda>progress.
     and_then (fetch_hours_remaining slot_index slots_in_epoch) (\<lambda>hours.
     and_then (get_validators post use_cache st) (\<lambda>validators.
     and_then (dict_get validators ''current'' (JList [])) (\<lambda>cur.
     and_then (py_len cur) (\<lambda>current_validators.
     and_then (dict_get validators ''delinquent'' (JList [])) (\<lambda>del.
     and_then (py_len del) (\<lambda>delinquent_validators.
     and_then (fetch_inflation inflation_rate ''total'') (\<lambda>total_inflation.
     and_then (fetch_inflation inflation_rate ''validator'') (\<lambda>validator_inflation.
     and_then (fetch_inflation inflation_rate ''foundation'') (\<lambda>foundation_inflation.
     and_then (fetch_supply supply_info ''total'') (\<lambda>total_supply.
     and_then (fetch_supply supply_info ''circulating'') (\<lambda>circulating_supply.
     and_then (all_validators validators) (\<lambda>vs.
     and_then (for_each activated_stake_sol vs) (\<lambda>stakes.
     let total_stake = (if stakes = [] then JInt 0 else JFloat (sum_list stakes));
         staking_ratio =
           (if 0 < total_supply then JFloat (sum_list stakes / total_supply) else JInt 0)
     in
     Inr (JDict
       [(''epoch'', JDict
           [(''current'', current_epoch), (''slots_in_epoch'', slots_in_epoch),
            (''slot_index'', slot_index), (''progress_percentage'', progress),
            (''hours_remaining'', hours)]),
        (''inflation'', JDict
           [(''total'', total_inflation), (''validator'', validator_inflation),
            (''foundation'', foundation_inflation)]),
        (''supply'', JDict
           [(''total'', JFloat total_supply), (''circulating'', JFloat circulating_supply),
            (''staked'', total_stake), (''staking_ratio'', staking_ratio)]),
        (''validators'', JDict
           [(''active'', JInt (int current_validators)),
            (''delinquent'', JInt (int delinquent_validators))]),
        (''performance'', JDict [(''current_slot'', slot_info)]),
        (''raw_data'', JDict
           [(''epoch_info'', epoch_info), (''inflation_rate'', inflation_rate),
            (''supply_info'', supply_info), (''cluster_nodes'', cluster_nodes)])])
     ))))))))))))))))))))))"

text \<open>
  \<^verbatim>\<open>get_network_info\<close>: the cached dictionary if there is one, else the RPC path; an
  error of the RPC path is raised again, wrapped. The result is written back to the
  store.
\<close>

definition get_network_info :: "transport \<Rightarrow> bool \<Rightarrow> store \<Rightarrow> (py_error + json) \<times> store" where
  "get_network_info post use_cache st =
     (case (if use_cache then get_latest_network_info st else None) of
        Some cached_data \<Rightarrow> (Inr cached_data, st)
      | None \<Rightarrow>
          (case fetch_network_info post use_cache st of
             Inl e \<Rightarrow> (Inl (NetworkInfoFailure e), st)
           | Inr processed_data \<Rightarrow> (Inr processed_data, store_network_info processed_data st)))"

text \<open>The parameters of the \<^verbatim>\<open>getProgramAccounts\<close> scan.\<close>

definition stake_scan_params :: "nat \<Rightarrow> json" where
  "stake_scan_params limit =
     JList [JStr ''Stake11111111111111111111111111111111111111'',
            JDict [(''encoding'', JStr ''jsonParsed''),
                   (''limit'', JInt (int limit)),
                   (''filters'',
                      JList [JDict [(''memcmp'',
                               JDict [(''offset'', JInt 4), (''bytes'', JStr ''2'')])]])]]"

text \<open>
  The inner \<^verbatim>\<open>try\<close> block of \<^verbatim>\<open>get_stake_accounts\<close> (lines 275 to 284): the
  store it leaves, or the exception its handler catches.
\<close>

definition write_back :: "transport \<Rightarrow> json \<Rightarrow> store \<Rightarrow> py_error + store" where
  "write_back post result st =
     and_then (get_epoch_info post) (\<lambda>epoch_info.
     and_then (dict_get epoch_info ''epoch'' (JInt 0)) (\<lambda>current_epoch.
     and_then (DataProcessor JNone JNone result) (\<lambda>processor.
     Inr (store_stake_accounts (processed_stake_info processor) current_epoch st))))"

text \<open>\<^verbatim>\<open>int(x)\<close> of a float: towards zero.\<close>

definition py_int :: "rat \<Rightarrow> int" where
  "py_int x = (if 0 \<le> x then \<lfloor>x\<rfloor> else \<lceil>x\<rceil>)"

text \<open>A cached account in the shape the aggregator expects.\<close>

definition cached_account :: "stake_account \<Rightarrow> json" where
  "cached_account a =
     JDict [(''pubkey'', pubkey a),
            (''account'', JDict
               [(''lamports'', JInt (py_int (balance a * 10 ^ 9))),
                (''data'', JDict
                   [(''parsed'', (if truthy (parsed a) then parsed a else JDict []))])])]"

definition get_stake_accounts ::
    "transport \<Rightarrow> bool \<Rightarrow> nat \<Rightarrow> store \<Rightarrow> (py_error + json) \<times> store" where
  "get_stake_accounts post use_cache limit st =
     (case (if use_cache then get_latest_stake_data limit st else None) of
        Some cached_data \<Rightarrow> (Inr (JList (map cached_account (accounts cached_data))), st)
      | None \<Rightarrow>
          (case make_rpc_request post ''getProgramAccounts'' (stake_scan_params limit) of
             Inl e \<Rightarrow> (Inr (JList []), st)
           | Inr result \<Rightarrow>
               (if truthy result then
                  (case write_back post result st of
                     Inl e \<Rightarrow> (Inr result, st)
                   | Inr st' \<Rightarrow> (Inr result, st'))
                else (Inr result, st))))"

section \<open>The refresh (\<^verbatim>\<open>app.py\<close>, lines 100 to 105)\<close>

definition refresh :: "transport \<Rightarrow> store \<Rightarrow> (py_error + processed) \<times> store" where
  "refresh post st =
     (case get_validators post (database_available st) st of
        Inl e \<Rightarrow> (Inl e, st)
      | Inr validators_info \<Rightarrow>
          (case get_network_info post (database_available st) st of
             (Inl e, st1) \<Rightarrow> (Inl e, st1)
           | (Inr network_info, st1) \<Rightarrow>
               (case get_stake_accounts post (database_available st1) 50 st1 of
                  (Inl e, st2) \<Rightarrow> (Inl e, st2)
                | (Inr stake_accounts, st2) \<Rightarrow>
                    (DataProcessor validators_info network_info stake_accounts, st2))))"

section \<open>Example inputs\<close>

text \<open>
  The specification's example: three validators with stakes 100, 50 and 50 tokens
  (in base units), two of them current and one delinquent.
\<close>

definition validator_with_stake :: "int \<Rightarrow> json" where
  "validator_with_stake tokens = JDict [(''activatedStake'', JInt (tokens * 1000000000))]"

definition spec_example :: json where
  "spec_example =
     JDict [(''current'', JList [validator_with_stake 100, validator_with_stake 50]),
            (''delinquent'', JList [validator_with_stake 50])]"

text \<open>
  A validator whose latest epoch-credit entry is \<^verbatim>\<open>[2, 120, 50]\<close>, beside one
  with no entries.
\<close>

definition credits_validator :: json where
  "credits_validator =
     JDict [(''activatedStake'', JInt 1000000000),
            (''epochCredits'', JList [JList [JInt 1, JInt 50, JInt 20],
                                      JList [JInt 2, JInt 120, JInt 50]])]"

definition credits_example :: json where
  "credits_example = JDict [(''current'', JList [credits_validator, validator_with_stake 1])]"

text \<open>Four validators, two of them tied on stake.\<close>

definition tie_example :: json where
  "tie_example =
     JDict [(''current'', JList [validator_with_stake 100, validator_with_stake 50,
                                 validator_with_stake 50, validator_with_stake 25])]"

text \<open>Four stake accounts with balances 5, 150, 150000 and 0 (an account without fields).\<close>

definition account_with_balance :: "string \<Rightarrow> int \<Rightarrow> json" where
  "account_with_balance key tokens =
     JDict [(''pubkey'', JStr key),
            (''account'', JDict [(''lamports'', JInt (tokens * 1000000000))])]"

definition stake_example :: json where
  "stake_example =
     JList [account_with_balance ''a'' 5, account_with_balance ''b'' 150,
            account_with_balance ''c'' 150000, JDict []]"

text \<open>A table of eleven rows: one with stake 3, ten with stake 1.\<close>

definition row_with_stake :: "rat \<Rightarrow> validator_row" where
  "row_with_stake s =
     \<lparr> nodePubkey = JStr ''Unknown'', votePubkey = JStr ''Unknown'', activatedStake = s,
       stakePercentage = 0, commission = JInt 0, lastVote = JInt 0, rootSlot = JInt 0,
       credits = JInt 0, status = ''Active'', rank = 1, estimatedAPY = 8 \<rparr>"

definition eleven_rows :: "validator_row list" where
  "eleven_rows = map row_with_stake [3, 1, 1, 1, 1, 1, 1, 1, 1, 1, 1]"

text \<open>
  Remote endpoints for the examples: one whose stake scan is refused with a structured
  "limit exceeded" error while every other method answers, one whose stake scan answers
  too, and one that cannot be reached.
\<close>

definition ok_response :: "json \<Rightarrow> py_error + response" where
  "ok_response result =
     Inr \<lparr> resp_status_code = 200, resp_text = [],
           resp_json = Some (JDict [(''jsonrpc'', JStr ''2.0''), (''result'', result),
                                    (''id'', JInt 1)]) \<rparr>"

definition limit_exceeded :: json where
  "limit_exceeded =
     JDict [(''code'', JInt (- 32010)),
            (''message'', JStr ''accumulated scan results exceeded the limit'')]"

definition example_epoch_info :: json where
  "example_epoch_info =
     JDict [(''epoch'', JInt 700), (''slotIndex'', JInt 0), (''slotsInEpoch'', JInt 432000)]"

definition stub_rpc :: transport where
  "stub_rpc method params =
     (if method = ''getEpochInfo'' then ok_response example_epoch_info
      else if method = ''getInflationRate'' then
        ok_response (JDict [(''total'', JFloat (5 / 100)), (''validator'', JFloat (4 / 100)),
                            (''foundation'', JFloat (1 / 100)), (''epoch'', JInt 700)])
      else if method = ''getSupply'' then
        ok_response (JDict [(''value'', JDict [(''total'', JInt 500000000000),
                                               (''circulating'', JInt 400000000000)])])
      else if method = ''getSlot'' then ok_response (JInt 302400000)
      else if method = ''getClusterNodes'' then ok_response (JList [JDict [(''pubkey'', JStr ''n1'')]])
      else if method = ''getVoteAccounts'' then ok_response spec_example
      else if method = ''getProgramAccounts'' then
        Inr \<lparr> resp_status_code = 200, resp_text = [],
              resp_json = Some (JDict [(''jsonrpc'', JStr ''2.0''), (''error'', limit_exceeded),
                                       (''id'', JInt 1)]) \<rparr>
      else Inl ConnectionError)"

definition scan_rpc :: transport where
  "scan_rpc method params =
     (if method = ''getProgramAccounts'' then ok_response stake_example
      else stub_rpc method params)"

definition down_rpc :: transport where
  "down_rpc method params = Inl ConnectionError"

definition empty_store :: store where
  "empty_store =
     \<lparr> database_available = True, validator_info_table = [], network_info_table = [],
       stake_accounts_table = [] \<rparr>"

text \<open>What the RPC path of the network fetch returns from the first example endpoint.\<close>

definition stub_network_info :: json where
  "stub_network_info = projr (fst (get_network_info stub_rpc False empty_store))"

text \<open>A validator list holding one validator without any field.\<close>

definition bare_validators :: json where
  "bare_validators = JDict [(''current'', JList [JDict []])]"

text \<open>
  The activated stakes of three validators, in base units: 582.6, 380.4 and 832.3
  tokens.
\<close>

definition rounding_example :: "int list" where
  "rounding_example = [582600000000, 380400000000, 832300000000]"

section \<open>Input shapes and defaults\<close>

text \<open>
  The shape of an input whose optional fields may each be missing: a field is either
  absent or holds a value of the kind the aggregation computes with (a number, a list,
  a dictionary). These predicates describe inputs; they are not part of the program.
\<close>

definition is_number :: "json \<Rightarrow> bool" where
  "is_number x \<longleftrightarrow> num_val x \<noteq> None"

definition absent_or :: "(json \<Rightarrow> bool) \<Rightarrow> (string \<times> json) list \<Rightarrow> string \<Rightarrow> bool" where
  "absent_or P kvs k = (case map_of kvs k of None \<Rightarrow> True | Some x \<Rightarrow> P x)"

fun dict_with :: "((string \<times> json) list \<Rightarrow> bool) \<Rightarrow> json \<Rightarrow> bool" where
  "dict_with P (JDict kvs) = P kvs"
| "dict_with P _ = False"

fun list_with :: "(json list \<Rightarrow> bool) \<Rightarrow> json \<Rightarrow> bool" where
  "list_with P (JList xs) = P xs"
| "list_with P _ = False"

fun counters :: "json list \<Rightarrow> bool" where
  "counters (a # b # rest) = (is_number a \<and> is_number b)"
| "counters _ = False"

definition shaped_credits :: "json \<Rightarrow> bool" where
  "shaped_credits = list_with (\<lambda>es. es = [] \<or> list_with counters (last es))"

definition shaped_validator :: "json \<Rightarrow> bool" where
  "shaped_validator =
     dict_with (\<lambda>kvs. absent_or is_number kvs ''activatedStake'' \<and>
                      absent_or shaped_credits kvs ''epochCredits'' \<and>
                      absent_or is_number kvs ''commission'')"

definition shaped_validators_info :: "json \<Rightarrow> bool" where
  "shaped_validators_info =
     dict_with (\<lambda>kvs. absent_or (list_with (list_all shaped_validator)) kvs ''current'' \<and>
                      absent_or (list_with (list_all shaped_validator)) kvs ''delinquent'')"

definition shaped_supply_value :: "json \<Rightarrow> bool" where
  "shaped_supply_value v \<longleftrightarrow>
     (if truthy v
      then dict_with (\<lambda>f. absent_or is_number f ''total'' \<and> absent_or is_number f ''circulating'') v
      else True)"

definition shaped_network_info :: "json \<Rightarrow> bool" where
  "shaped_network_info =
     dict_with (\<lambda>kvs.
       absent_or (dict_with (\<lambda>e. absent_or is_number e ''slotsInEpoch'' \<and>
                                  absent_or is_number e ''slotIndex'')) kvs ''epoch_info'' \<and>
       absent_or (dict_with (\<lambda>r. absent_or is_number r ''total'')) kvs ''inflation_rate'' \<and>
       absent_or (dict_with (\<lambda>s. absent_or shaped_supply_value s ''value'')) kvs ''supply_info'' \<and>
       absent_or (list_with (\<lambda>nodes. True)) kvs ''cluster_nodes'')"

fun shaped_data :: "json \<Rightarrow> bool" where
  "shaped_data (JDict d) = absent_or (dict_with (\<lambda>p. True)) d ''parsed''"
| "shaped_data _ = True"

definition shaped_account :: "json \<Rightarrow> bool" where
  "shaped_account =
     dict_with (\<lambda>kvs.
       absent_or (dict_with (\<lambda>d. absent_or is_number d ''lamports'' \<and>
                                  absent_or shaped_data d ''data'')) kvs ''account'')"




text \<open>
  The fields of the network summary that the aggregation fills from the keys
  \<^verbatim>\<open>epoch_info\<close>, \<^verbatim>\<open>inflation_rate\<close>, \<^verbatim>\<open>supply_info\<close>,
  \<^verbatim>\<open>cluster_nodes\<close> and \<^verbatim>\<open>slot_info\<close> of its input, all at their defaults.
\<close>

definition zero_defaults :: "network_summary \<Rightarrow> bool" where
  "zero_defaults out \<longleftrightarrow>
     epoch_current out = JInt 0 \<and> epoch_slots_in_epoch out = JInt 0 \<and>
     epoch_slot_index out = JInt 0 \<and> epoch_progress_percentage out = 0 \<and>
     epoch_hours_remaining out = 0 \<and>
     inflation_total out = JInt 0 \<and> inflation_validator out = JInt 0 \<and>
     inflation_foundation out = JInt 0 \<and> inflation_epoch out = JInt 0 \<and>
     supply_total out = 0 \<and> supply_circulating out = 0 \<and> supply_staking_ratio out = 0 \<and>
     performance_current_slot out = JInt 0 \<and> performance_node_count out = 0"

definition empty_stake_info :: stake_info where
  "empty_stake_info =
     \<lparr> total_stake = 0, total_accounts = 0, categories = [], counts = [], amounts = [],
       accounts = [] \<rparr>"

text \<open>
  An input sample read field by field: its public key (\<^verbatim>\<open>'Unknown'\<close> when the key is
  absent) and its balance in tokens (0 when the amount is absent).
\<close>

definition sample_pubkey :: "json \<Rightarrow> json" where
  "sample_pubkey a =
     (case a of
        JDict kvs \<Rightarrow> (case map_of kvs ''pubkey'' of None \<Rightarrow> JStr ''Unknown'' | Some k \<Rightarrow> k)
      | _ \<Rightarrow> JNone)"

definition sample_lamports :: "json \<Rightarrow> rat" where
  "sample_lamports a =
     (case a of
        JDict kvs \<Rightarrow>
          (case map_of kvs ''account'' of
             Some (JDict d) \<Rightarrow>
               (case map_of d ''lamports'' of
                  Some l \<Rightarrow> (case num_val l of Some r \<Rightarrow> r | None \<Rightarrow> 0)
                | None \<Rightarrow> 0)
           | _ \<Rightarrow> 0)
      | _ \<Rightarrow> 0)"

definition sample_balance :: "json \<Rightarrow> rat" where
  "sample_balance a = sample_lamports a / 10 ^ 9"

text \<open>The samples of bucket \<open>k\<close>: those whose balance falls into the \<open>k\<close>-th interval.\<close>

definition bucket :: "nat \<Rightarrow> json list \<Rightarrow> json list" where
  "bucket k samples = filter (\<lambda>a. cut (sample_balance a) = Some k) samples"

section \<open>Basic facts about the error plumbing\<close>

lemma and_then_Inr: "and_then m f = Inr y \<longleftrightarrow> (\<exists>x. m = Inr x \<and> f x = Inr y)"
  by (cases m) (simp_all add: and_then_def)

lemma for_each_Inr: "for_each f xs = Inr ys \<longleftrightarrow> list_all2 (\<lambda>x y. f x = Inr y) xs ys"
proof (induction xs arbitrary: ys)
  case Nil
  show ?case by auto
next
  case (Cons x xs)
  show ?case
    by (cases ys) (auto simp: and_then_Inr Cons.IH)
qed

lemma list_all2_same_result:
  "list_all2 (\<lambda>x y. f x = Inr (g y)) xs ys \<Longrightarrow> list_all2 (\<lambda>x s. f x = Inr s) xs ss \<Longrightarrow>
     map g ys = ss"
proof (induction xs arbitrary: ys ss)
  case Nil
  then show ?case by simp
next
  case (Cons x xs)
  then show ?case by (auto simp: list_all2_Cons1)
qed

lemma for_each_total:
  "(\<And>x. x \<in> set xs \<Longrightarrow> \<exists>y. f x = Inr y) \<Longrightarrow> \<exists>ys. for_each f xs = Inr ys"
proof (induction xs)
  case Nil
  show ?case by simp
next
  case (Cons x xs)
  from Cons.prems[of x] obtain y where y: "f x = Inr y" by auto
  from Cons.IH Cons.prems obtain ys where ys: "for_each f xs = Inr ys" by auto
  show ?case by (simp add: y ys and_then_def)
qed

lemma for_each_total_with:
  "(\<And>x. x \<in> set xs \<Longrightarrow> \<exists>y. f x = Inr y \<and> P y) \<Longrightarrow>
     \<exists>ys. for_each f xs = Inr ys \<and> list_all P ys"
proof (induction xs)
  case Nil
  show ?case by simp
next
  case (Cons x xs)
  from Cons.prems[of x] obtain y where y: "f x = Inr y" "P y" by auto
  from Cons.IH Cons.prems obtain ys where ys: "for_each f xs = Inr ys" "list_all P ys" by auto
  show ?case by (simp add: y ys and_then_def)
qed

section \<open>The rows of the validator table\<close>

lemma truncate_fields:
  "nodePubkey (validator_entry.truncate r) = nodePubkey r"
  "votePubkey (validator_entry.truncate r) = votePubkey r"
  "activatedStake (validator_entry.truncate r) = activatedStake r"
  "stakePercentage (validator_entry.truncate r) = stakePercentage r"
  "commission (validator_entry.truncate r) = commission r"
  "lastVote (validator_entry.truncate r) = lastVote r"
  "rootSlot (validator_entry.truncate r) = rootSlot r"
  "credits (validator_entry.truncate r) = credits r"
  "status (validator_entry.truncate r) = status r"
  by (simp_all add: validator_entry.truncate_def)

lemma process_validator_fields:
  "process_validator vi t v = Inr e \<Longrightarrow>
     activated_stake_sol v = Inr (activatedStake e) \<and>
     stakePercentage e = (if t > 0 then activatedStake e / t * 100 else 0) \<and>
     current_epoch_credits v = Inr (credits e) \<and>
     dict_get v ''nodePubkey'' (JStr ''Unknown'') = Inr (nodePubkey e) \<and>
     dict_get v ''votePubkey'' (JStr ''Unknown'') = Inr (votePubkey e) \<and>
     dict_get v ''commission'' (JInt 0) = Inr (commission e) \<and>
     dict_get v ''lastVote'' (JInt 0) = Inr (lastVote e) \<and>
     dict_get v ''rootSlot'' (JInt 0) = Inr (rootSlot e)"
  by (auto simp: process_validator_def and_then_Inr Let_def)

text \<open>
  A successful run pairs the merged input list with the rows, position by position:
  each row is the loop body's entry for its validator, ranked within the stake column,
  with the yield estimate computed from the one inflation rate.
\<close>

lemma process_validators_Inr:
  assumes "process_validators vi ni = Inr rows"
  shows "\<exists>vs stakes.
           all_validators vi = Inr vs \<and>
           for_each activated_stake_sol vs = Inr stakes \<and>
           map activatedStake rows = stakes \<and>
           list_all2 (\<lambda>v r. process_validator vi (sum_list stakes) v = Inr (validator_entry.truncate r) \<and>
               rank r = rank_min_desc stakes (activatedStake r) \<and>
               (\<exists>rate. apy_inflation_rate ni = Inr rate \<and>
                  estimated_apy rate (commission r) = Inr (estimatedAPY r))) vs rows"
proof -
  from assms obtain vs stakes entries where
    vs: "all_validators vi = Inr vs" and
    st: "for_each activated_stake_sol vs = Inr stakes" and
    en: "for_each (process_validator vi (sum_list stakes)) vs = Inr entries" and
    rw: "(if entries = [] then Inr [] else
           and_then (apy_inflation_rate ni) (\<lambda>inflation_rate.
           for_each (\<lambda>e.
             and_then (estimated_apy inflation_rate (commission e)) (\<lambda>apy.
             Inr (validator_entry.extend e
                  \<lparr> rank = rank_min_desc (map activatedStake entries) (activatedStake e),
                    estimatedAPY = apy \<rparr>))) entries)) = Inr rows"
    unfolding process_validators_def by (auto simp: and_then_Inr Let_def)
  have en2: "list_all2 (\<lambda>v e. process_validator vi (sum_list stakes) v = Inr e) vs entries"
    using en by (simp add: for_each_Inr)
  have st2: "list_all2 (\<lambda>v s. activated_stake_sol v = Inr s) vs stakes"
    using st by (simp add: for_each_Inr)
  have es: "map activatedStake entries = stakes"
  proof (rule list_all2_same_result[OF _ st2])
    show "list_all2 (\<lambda>v e. activated_stake_sol v = Inr (activatedStake e)) vs entries"
      using en2 by (rule list_all2_mono) (simp add: process_validator_fields)
  qed
  have rows2: "list_all2 (\<lambda>e r. validator_entry.truncate r = e \<and>
                  rank r = rank_min_desc stakes (activatedStake r) \<and>
                  (\<exists>rate. apy_inflation_rate ni = Inr rate \<and>
                     estimated_apy rate (commission r) = Inr (estimatedAPY r)))
                entries rows"
  proof (cases "entries = []")
    case True
    then show ?thesis using rw by simp
  next
    case False
    with rw obtain rate where
      rate: "apy_inflation_rate ni = Inr rate" and
      fe: "for_each (\<lambda>e.
             and_then (estimated_apy rate (commission e)) (\<lambda>apy.
             Inr (validator_entry.extend e
                  \<lparr> rank = rank_min_desc stakes (activatedStake e),
                    estimatedAPY = apy \<rparr>))) entries = Inr rows"
      by (auto simp: and_then_Inr es)
    from fe show ?thesis
      unfolding for_each_Inr
      by (rule list_all2_mono)
         (auto simp: and_then_Inr rate validator_entry.extend_def validator_entry.truncate_def)
  qed
  have "list_all2 (\<lambda>v r. process_validator vi (sum_list stakes) v = Inr (validator_entry.truncate r) \<and>
               rank r = rank_min_desc stakes (activatedStake r) \<and>
               (\<exists>rate. apy_inflation_rate ni = Inr rate \<and>
                  estimated_apy rate (commission r) = Inr (estimatedAPY r))) vs rows"
  proof (rule list_all2_trans[OF _ en2 rows2])
    fix v e r
    assume "process_validator vi (sum_list stakes) v = Inr e"
      and "validator_entry.truncate r = e \<and>
           rank r = rank_min_desc stakes (activatedStake r) \<and>
           (\<exists>rate. apy_inflation_rate ni = Inr rate \<and>
              estimated_apy rate (commission r) = Inr (estimatedAPY r))"
    then show "process_validator vi (sum_list stakes) v = Inr (validator_entry.truncate r) \<and>
           rank r = rank_min_desc stakes (activatedStake r) \<and>
           (\<exists>rate. apy_inflation_rate ni = Inr rate \<and>
              estimated_apy rate (commission r) = Inr (estimatedAPY r))"
      by simp
  qed
  moreover have "map activatedStake rows = stakes"
  proof -
    have "map activatedStake rows = map activatedStake entries"
      using rows2
      by (induction entries rows rule: list_all2_induct) (auto simp: validator_entry.truncate_def)
    then show ?thesis using es by simp
  qed
  ultimately show ?thesis using vs st by blast
qed

lemma rows_length:
  assumes "process_validators vi ni = Inr rows" and "all_validators vi = Inr vs"
  shows "length rows = length vs"
  using process_validators_Inr[OF assms(1)] assms(2) by (auto dest: list_all2_lengthD)

lemma row_fields:
  assumes "process_validators vi ni = Inr rows" and "r \<in> set rows"
  shows "stakePercentage r =
           (if 0 < sum_list (map activatedStake rows)
            then activatedStake r / sum_list (map activatedStake rows) * 100 else 0)"
    and "rank r = rank_min_desc (map activatedStake rows) (activatedStake r)"
proof -
  from process_validators_Inr[OF assms(1)] obtain vs where
    l: "list_all2 (\<lambda>v r. process_validator vi (sum_list (map activatedStake rows)) v =
                 Inr (validator_entry.truncate r) \<and>
               rank r = rank_min_desc (map activatedStake rows) (activatedStake r) \<and>
               (\<exists>rate. apy_inflation_rate ni = Inr rate \<and>
                  estimated_apy rate (commission r) = Inr (estimatedAPY r))) vs rows"
    by blast
  from assms(2) obtain i where i: "i < length rows" "rows ! i = r"
    by (auto simp: in_set_conv_nth)
  have iv: "i < length vs" using l i by (simp add: list_all2_lengthD)
  from list_all2_nthD[OF l iv] i
  have p: "process_validator vi (sum_list (map activatedStake rows)) (vs ! i) =
             Inr (validator_entry.truncate r)"
    and k: "rank r = rank_min_desc (map activatedStake rows) (activatedStake r)"
    by simp_all
  from process_validator_fields[OF p]
  show "stakePercentage r =
           (if 0 < sum_list (map activatedStake rows)
            then activatedStake r / sum_list (map activatedStake rows) * 100 else 0)"
    by (simp only: truncate_fields)
  show "rank r = rank_min_desc (map activatedStake rows) (activatedStake r)" by (rule k)
qed

lemma row_of_validator:
  assumes "process_validators vi ni = Inr rows" and "all_validators vi = Inr vs" and "i < length vs"
  shows "process_validator vi (sum_list (map activatedStake rows)) (vs ! i) =
             Inr (validator_entry.truncate (rows ! i))"
    and "\<exists>rate. apy_inflation_rate ni = Inr rate \<and>
                  estimated_apy rate (commission (rows ! i)) = Inr (estimatedAPY (rows ! i))"
proof -
  from process_validators_Inr[OF assms(1)] assms(2) have
    l: "list_all2 (\<lambda>v r. process_validator vi (sum_list (map activatedStake rows)) v =
                 Inr (validator_entry.truncate r) \<and>
               rank r = rank_min_desc (map activatedStake rows) (activatedStake r) \<and>
               (\<exists>rate. apy_inflation_rate ni = Inr rate \<and>
                  estimated_apy rate (commission r) = Inr (estimatedAPY r))) vs rows"
    by auto
  from list_all2_nthD[OF l assms(3)]
  show "process_validator vi (sum_list (map activatedStake rows)) (vs ! i) =
             Inr (validator_entry.truncate (rows ! i))"
    and "\<exists>rate. apy_inflation_rate ni = Inr rate \<and>
                  estimated_apy rate (commission (rows ! i)) = Inr (estimatedAPY (rows ! i))"
    by simp_all
qed

lemma DataProcessor_parts:
  assumes "DataProcessor vi ni sa = Inr p"
  shows "process_validators vi ni = Inr (processed_validators p)"
    and "process_stake_accounts sa = Inr (processed_stake_info p)"
  using assms by (auto simp: DataProcessor_def and_then_Inr)

lemma DataProcessor_network:
  assumes "DataProcessor vi ni sa = Inr p"
  shows "process_network_info ni (processed_validators p) = Inr (processed_network_info p)"
  using assms by (auto simp: DataProcessor_def and_then_Inr)

section \<open>Sums of scaled columns\<close>

lemma sum_list_scaled:
  "sum_list (map (\<lambda>r. f r / t * 100) rows) = sum_list (map f rows) / t * (100::rat)"
  by (induction rows) (simp_all add: add_divide_distrib distrib_right)

section \<open>The credits of one validator\<close>

lemma last_index: "es \<noteq> [] \<Longrightarrow> list_index es (- 1) = Inr (last es)"
  by (cases es rule: rev_cases) (auto simp: list_index_def nth_append)

lemma current_epoch_credits_falsy:
  "(case map_of kvs ''epochCredits'' of None \<Rightarrow> True | Some ec \<Rightarrow> \<not> truthy ec) \<Longrightarrow>
     current_epoch_credits (JDict kvs) = Inr (JInt 0)"
  by (auto simp: current_epoch_credits_def and_then_def split: option.splits)

lemma current_epoch_credits_sub:
  assumes "map_of kvs ''epochCredits'' = Some (JList es)" and "es \<noteq> []"
    and "last es = JList (a # b # rest)"
  shows "current_epoch_credits (JDict kvs) = py_sub b a"
proof -
  have l: "py_index (JList es) (- 1) = Inr (JList (a # b # rest))"
    using assms(2,3) by (simp add: last_index)
  have b: "py_index (JList (a # b # rest)) 1 = Inr b"
    by (simp add: list_index_def)
  have a: "py_index (JList (a # b # rest)) 0 = Inr a"
    by (simp add: list_index_def)
  have t: "truthy (JList es)" using assms(2) by simp
  show ?thesis
    unfolding current_epoch_credits_def
    using assms(1) by (simp only: dict_get.simps option.case and_then_def sum.case t if_True l a b)
qed

section \<open>Ranks\<close>

lemma filter_length_mono:
  "(\<And>x. x \<in> set xs \<Longrightarrow> P x \<Longrightarrow> Q x) \<Longrightarrow> length (filter P xs) \<le> length (filter Q xs)"
  by (induction xs) auto

lemma filter_length_less:
  "(\<And>x. x \<in> set xs \<Longrightarrow> P x \<Longrightarrow> Q x) \<Longrightarrow> \<exists>x \<in> set xs. Q x \<and> \<not> P x \<Longrightarrow>
     length (filter P xs) < length (filter Q xs)"
proof (induction xs)
  case Nil
  then show ?case by simp
next
  case (Cons x xs)
  have le: "length (filter P xs) \<le> length (filter Q xs)"
    using Cons.prems(1) by (intro filter_length_mono) simp
  show ?case
  proof (cases "Q x \<and> \<not> P x")
    case True
    with le show ?thesis by simp
  next
    case False
    with Cons.prems have "\<exists>y \<in> set xs. Q y \<and> \<not> P y" by auto
    with Cons.IH Cons.prems(1) have "length (filter P xs) < length (filter Q xs)" by simp
    with Cons.prems(1)[of x] show ?thesis by auto
  qed
qed

text \<open>
  Claim C1, as the code has it. The rank of a row is one more than the number of rows
  with a strictly larger stake (pandas' \<^verbatim>\<open>method='min'\<close>, the standard competition
  rank). So a row with the largest stake has rank 1, rows with equal stake share one
  rank, the lowest of the positions they occupy, and a larger stake gets a strictly
  smaller rank. Nothing says that every rank number is used.
\<close>

theorem rank_by_descending_stake:
  assumes "process_validators vi ni = Inr rows"
  shows "\<forall>r \<in> set rows.
           rank r = 1 + int (length (filter (\<lambda>q. activatedStake r < activatedStake q) rows)) \<and>
           ((\<forall>q \<in> set rows. activatedStake q \<le> activatedStake r) \<longrightarrow> rank r = 1) \<and>
           (\<forall>q \<in> set rows.
              (activatedStake q = activatedStake r \<longrightarrow> rank q = rank r) \<and>
              (activatedStake q < activatedStake r \<longrightarrow> rank r < rank q))"
proof
  fix r assume r: "r \<in> set rows"
  have rk: "\<And>q. q \<in> set rows \<Longrightarrow>
      rank q = 1 + int (length (filter (\<lambda>p. activatedStake q < activatedStake p) rows))"
    using row_fields(2)[OF assms] by (simp add: rank_min_desc_def filter_map comp_def)
  have top: "rank r = 1" if "\<forall>q \<in> set rows. activatedStake q \<le> activatedStake r"
  proof -
    have "filter (\<lambda>q. activatedStake r < activatedStake q) rows = []"
      using that by (auto simp: filter_empty_conv)
    then show ?thesis using rk[OF r] by simp
  qed
  have tie: "rank q = rank r" if "q \<in> set rows" "activatedStake q = activatedStake r" for q
    using rk[OF r] rk[OF that(1)] that(2) by simp
  have desc: "rank r < rank q" if q: "q \<in> set rows" and lt: "activatedStake q < activatedStake r" for q
  proof -
    have "length (filter (\<lambda>p. activatedStake r < activatedStake p) rows)
            < length (filter (\<lambda>p. activatedStake q < activatedStake p) rows)"
    proof (rule filter_length_less)
      fix x assume "activatedStake r < activatedStake x"
      with lt show "activatedStake q < activatedStake x" by simp
    next
      show "\<exists>x \<in> set rows. activatedStake q < activatedStake x \<and> \<not> activatedStake r < activatedStake x"
        using r lt by auto
    qed
    then show ?thesis using rk[OF r] rk[OF q] by simp
  qed
  show "rank r = 1 + int (length (filter (\<lambda>q. activatedStake r < activatedStake q) rows)) \<and>
           ((\<forall>q \<in> set rows. activatedStake q \<le> activatedStake r) \<longrightarrow> rank r = 1) \<and>
           (\<forall>q \<in> set rows.
              (activatedStake q = activatedStake r \<longrightarrow> rank q = rank r) \<and>
              (activatedStake q < activatedStake r \<longrightarrow> rank r < rank q))"
    using rk[OF r] top tie desc by blast
qed

text \<open>The specification's example: stakes 100, 50, 50 get the ranks 1, 2, 2.\<close>

theorem rank_by_descending_stake_witness:
  "process_validators spec_example (JDict []) =
     Inr (projr (process_validators spec_example (JDict []))) \<and>
   map activatedStake (projr (process_validators spec_example (JDict []))) = [100, 50, 50] \<and>
   map rank (projr (process_validators spec_example (JDict []))) = [1, 2, 2]"
proof -
  define rows where "rows = projr (process_validators spec_example (JDict []))"
  have run: "process_validators spec_example (JDict []) = Inr rows"
    unfolding rows_def by code_simp
  have st: "map activatedStake rows = [100, 50, 50]"
    unfolding rows_def by code_simp
  then obtain r0 r1 r2 where rows: "rows = [r0, r1, r2]"
    and s: "activatedStake r0 = 100" "activatedStake r1 = 50" "activatedStake r2 = 50"
    by auto
  from rank_by_descending_stake[OF run]
  have "rank r0 = 1" "rank r1 = 2" "rank r2 = 2"
    unfolding rows by (simp_all add: s)
  then have "map rank rows = [1, 2, 2]"
    by (simp add: rows)
  with run st show ?thesis
    unfolding rows_def by simp
qed

text \<open>
  Claim C1 as stated fails on "no rank number is skipped": for the stakes 100, 50, 50, 25
  the ranks are 1, 2, 2, 4, so rank 3 is skipped after the tie.
\<close>

theorem rank_skips_after_tie:
  "process_validators tie_example (JDict []) = Inr (projr (process_validators tie_example (JDict []))) \<and>
   map activatedStake (projr (process_validators tie_example (JDict []))) = [100, 50, 50, 25] \<and>
   map rank (projr (process_validators tie_example (JDict []))) = [1, 2, 2, 4]"
  by code_simp

text \<open>
  The cached validator table (\<^verbatim>\<open>get_latest_validators_data\<close>) is ranked the same
  way.
\<close>

lemma cached_rank:
  assumes "get_latest_validators_data st = Some df" and "(v, k) \<in> set df"
  shows "k = 1 + int (length (filter (\<lambda>(w, j). vi_activated_stake v < vi_activated_stake w) df))"
proof -
  define latest where "latest = filter (\<lambda>r. vi_epoch r = vi_epoch (last (validator_info_table st)))
      (validator_info_table st)"
  from assms(1) have df: "df = map (\<lambda>r. (r, rank_min_desc (map vi_activated_stake latest)
      (vi_activated_stake r))) latest"
    by (auto simp: get_latest_validators_data_def Let_def latest_def split: if_splits)
  with assms(2) have k: "k = rank_min_desc (map vi_activated_stake latest) (vi_activated_stake v)"
    by auto
  have "length (filter (\<lambda>(w, j). vi_activated_stake v < vi_activated_stake w) df) =
        length (filter (\<lambda>y. vi_activated_stake v < y) (map vi_activated_stake latest))"
    unfolding df by (simp add: filter_map comp_def)
  with k show ?thesis by (simp add: rank_min_desc_def)
qed

section \<open>The bucket indices\<close>

lemma upt_5: "[0 ..< length labels] = [0, 1, 2, 3, 4]"
  by (simp add: labels_def upt_rec)

section \<open>Sums of the largest stakes\<close>

lemma sum_list_take_mono:
  fixes xs :: "rat list"
  assumes "\<forall>x \<in> set xs. 0 \<le> x" and "m \<le> n"
  shows "sum_list (take m xs) \<le> sum_list (take n xs)"
proof -
  obtain k where n: "n = m + k" using assms(2) by (auto simp: le_iff_add)
  have "0 \<le> sum_list (take k (drop m xs))"
    using assms(1) by (intro sum_list_nonneg) (auto dest: in_set_takeD in_set_dropD)
  then show ?thesis
    unfolding n take_add by simp
qed

lemma sum_list_take_le:
  fixes xs :: "rat list"
  assumes "\<forall>x \<in> set xs. 0 \<le> x"
  shows "sum_list (take n xs) \<le> sum_list xs"
  using sum_list_take_mono[OF assms, of n "max n (length xs)"] by simp

lemma sum_list_sorted_desc: "sum_list (rev (sort xs)) = sum_list (xs :: rat list)"
proof -
  have "mset (rev (sort xs)) = mset xs" by simp
  then show ?thesis by (metis sum_mset_sum_list)
qed

lemma stake_top_bounds:
  assumes "\<forall>r \<in> set df. 0 \<le> activatedStake r" and "m \<le> n"
  shows "stake_top m df (sum_list (map activatedStake df)) \<le> stake_top n df (sum_list (map activatedStake df))"
    and "stake_top n df (sum_list (map activatedStake df)) \<le> 100"
proof -
  let ?xs = "rev (sort (map activatedStake df))"
  let ?t = "sum_list (map activatedStake df)"
  have nn: "\<forall>x \<in> set ?xs. 0 \<le> x" using assms(1) by auto
  have tot: "sum_list ?xs = ?t" by (rule sum_list_sorted_desc)
  show "stake_top m df ?t \<le> stake_top n df ?t"
    using sum_list_take_mono[OF nn assms(2)]
    by (simp add: stake_top_def divide_right_mono)
  show "stake_top n df ?t \<le> 100"
  proof (cases "0 < ?t")
    case True
    have "sum_list (take n ?xs) \<le> ?t"
      using sum_list_take_le[OF nn, of n] tot by simp
    then show ?thesis using True by (simp add: stake_top_def pos_divide_le_eq)
  next
    case False
    then show ?thesis by (simp add: stake_top_def)
  qed
qed

lemma process_network_info_concentration:
  assumes "process_network_info ni df = Inr out"
  shows "concentration_top10 out = (if df \<noteq> [] then stake_top 10 df (sum_list (map activatedStake df)) else 0)"
    and "concentration_top20 out = (if df \<noteq> [] then stake_top 20 df (sum_list (map activatedStake df)) else 0)"
    and "concentration_top50 out = (if df \<noteq> [] then stake_top 50 df (sum_list (map activatedStake df)) else 0)"
  using assms
  by (auto simp: process_network_info_def and_then_Inr Let_def)

section \<open>The stake-account fetch\<close>

lemma DataProcessor_None: "DataProcessor JNone ni sa = Inl AttributeError"
  by (simp add: DataProcessor_def process_validators_def all_validators_def and_then_def)

lemma write_back_fails: "isl (write_back post result st)"
  by (auto simp: write_back_def and_then_def DataProcessor_None split: sum.splits)

text \<open>
  Claim C9. Constructing the aggregator with \<^verbatim>\<open>None\<close> for the validators raises
  \<^verbatim>\<open>AttributeError\<close> whatever the other two inputs are. So the write-back block of
  the stake-account fetch always ends in its exception handler, and on the RPC path a
  result of the scan is returned with the store exactly as it was.
\<close>

theorem write_back_never_stores:
  "DataProcessor JNone network_info stake_accounts = Inl AttributeError \<and>
   isl (write_back post result st) \<and>
   ((if use_cache then get_latest_stake_data limit st else None) = None \<and>
    make_rpc_request post ''getProgramAccounts'' (stake_scan_params limit) = Inr result
      \<longrightarrow> get_stake_accounts post use_cache limit st = (Inr result, st))"
proof -
  have "get_stake_accounts post use_cache limit st = (Inr result, st)"
    if "(if use_cache then get_latest_stake_data limit st else None) = None"
      and "make_rpc_request post ''getProgramAccounts'' (stake_scan_params limit) = Inr result"
    using that write_back_fails[of post result st]
    by (auto simp: get_stake_accounts_def split: sum.splits)
  then show ?thesis
    using DataProcessor_None write_back_fails by blast
qed

text \<open>
  A scan answering four accounts: the fetch returns them and the store stays empty,
  although storing their processed form would have added four rows.
\<close>

theorem write_back_never_stores_witness:
  "get_latest_stake_data 50 empty_store = None \<and>
   make_rpc_request scan_rpc ''getProgramAccounts'' (stake_scan_params 50) = Inr stake_example \<and>
   get_stake_accounts scan_rpc True 50 empty_store = (Inr stake_example, empty_store) \<and>
   length (stake_accounts_table
     (store_stake_accounts (projr (process_stake_accounts stake_example)) (JInt 700) empty_store)) = 4"
proof -
  have c: "(if True then get_latest_stake_data 50 empty_store else None) = None"
    by code_simp
  have r: "make_rpc_request scan_rpc ''getProgramAccounts'' (stake_scan_params 50) = Inr stake_example"
    by code_simp
  have w: "length (stake_accounts_table
     (store_stake_accounts (projr (process_stake_accounts stake_example)) (JInt 700) empty_store)) = 4"
    by code_simp
  from write_back_never_stores[of _ _ scan_rpc stake_example empty_store True 50] c r
  have "get_stake_accounts scan_rpc True 50 empty_store = (Inr stake_example, empty_store)"
    by blast
  with c r w show ?thesis by simp
qed

lemma rpc_error_raised:
  assumes "post m (if truthy params then params else JList []) =
             Inr \<lparr> resp_status_code = 200, resp_text = t, resp_json = Some (JDict kvs) \<rparr>"
    and "map_of kvs ''error'' = Some err"
  shows "make_rpc_request post m params = Inl (RpcError err)"
  using assms by (simp add: make_rpc_request_def and_then_def)

lemma fetch_network_info_propagates:
  "isl (get_epoch_info post) \<or> isl (get_inflation_rate post) \<or> isl (get_supply post) \<or>
   isl (make_rpc_request post ''getSlot'' JNone) \<or>
   isl (make_rpc_request post ''getClusterNodes'' JNone) \<or>
   isl (get_validators post use_cache st)
   \<Longrightarrow> isl (fetch_network_info post use_cache st)"
  unfolding fetch_network_info_def
  by (cases "get_epoch_info post"; cases "get_inflation_rate post"; cases "get_supply post";
      cases "make_rpc_request post ''getSlot'' JNone";
      cases "make_rpc_request post ''getClusterNodes'' JNone")
     (auto simp: and_then_def split: sum.splits)

text \<open>
  Claim C7. On the RPC path of the stake-account fetch an error of the scan gives the
  empty list and an unchanged store, and the fetch never raises; a response carrying
  an \<^verbatim>\<open>error\<close> field is such an error. The validator fetch passes the error of
  its RPC call on, and the network fetch raises again (wrapped) whatever its RPC path
  raised, which it does as soon as one of its calls fails.
\<close>

theorem stake_scan_errors_degrade:
  "((if use_cache then get_latest_stake_data limit st else None) = None \<and>
    make_rpc_request post ''getProgramAccounts'' (stake_scan_params limit) = Inl e
      \<longrightarrow> get_stake_accounts post use_cache limit st = (Inr (JList []), st)) \<and>
   ((if use_cache then get_latest_stake_data limit st else None) = None
      \<longrightarrow> \<not> isl (fst (get_stake_accounts post use_cache limit st))) \<and>
   (post ''getProgramAccounts'' (stake_scan_params limit) =
      Inr \<lparr> resp_status_code = 200, resp_text = t, resp_json = Some (JDict kvs) \<rparr> \<and>
    map_of kvs ''error'' = Some err
      \<longrightarrow> make_rpc_request post ''getProgramAccounts'' (stake_scan_params limit) = Inl (RpcError err)) \<and>
   ((if use_cache then get_latest_validators_data st else None) = None \<and>
    make_rpc_request post ''getVoteAccounts'' JNone = Inl e
      \<longrightarrow> get_validators post use_cache st = Inl e) \<and>
   ((if use_cache then get_latest_network_info st else None) = None \<and>
    fetch_network_info post use_cache st = Inl e
      \<longrightarrow> get_network_info post use_cache st = (Inl (NetworkInfoFailure e), st)) \<and>
   (isl (get_epoch_info post) \<or> isl (get_inflation_rate post) \<or> isl (get_supply post) \<or>
    isl (make_rpc_request post ''getSlot'' JNone) \<or>
    isl (make_rpc_request post ''getClusterNodes'' JNone) \<or>
    isl (get_validators post use_cache st)
      \<longrightarrow> isl (fetch_network_info post use_cache st))"
proof -
  have a: "get_stake_accounts post use_cache limit st = (Inr (JList []), st)"
    if "(if use_cache then get_latest_stake_data limit st else None) = None"
      and "make_rpc_request post ''getProgramAccounts'' (stake_scan_params limit) = Inl e"
    using that by (simp add: get_stake_accounts_def)
  have b: "\<not> isl (fst (get_stake_accounts post use_cache limit st))"
    if "(if use_cache then get_latest_stake_data limit st else None) = None"
    using that by (simp add: get_stake_accounts_def split: sum.splits)
  have c: "make_rpc_request post ''getProgramAccounts'' (stake_scan_params limit) = Inl (RpcError err)"
    if "post ''getProgramAccounts'' (stake_scan_params limit) =
          Inr \<lparr> resp_status_code = 200, resp_text = t, resp_json = Some (JDict kvs) \<rparr>"
      and "map_of kvs ''error'' = Some err"
    using that by (intro rpc_error_raised[where t = t and kvs = kvs]) (simp_all add: stake_scan_params_def)
  have d: "get_validators post use_cache st = Inl e"
    if "(if use_cache then get_latest_validators_data st else None) = None"
      and "make_rpc_request post ''getVoteAccounts'' JNone = Inl e"
    using that by (simp add: get_validators_def)
  have f: "get_network_info post use_cache st = (Inl (NetworkInfoFailure e), st)"
    if "(if use_cache then get_latest_network_info st else None) = None"
      and "fetch_network_info post use_cache st = Inl e"
    using that by (simp add: get_network_info_def)
  from a b c d f fetch_network_info_propagates[of post use_cache st] show ?thesis
    by blast
qed

text \<open>
  With the scan refused ("limit exceeded") the stake fetch returns the empty list while
  the validator and network fetches succeed; with the endpoint unreachable the stake
  fetch still returns the empty list and the other two raise.
\<close>

theorem stake_scan_errors_degrade_witness:
  "make_rpc_request stub_rpc ''getProgramAccounts'' (stake_scan_params 50) = Inl (RpcError limit_exceeded) \<and>
   get_stake_accounts stub_rpc False 50 empty_store = (Inr (JList []), empty_store) \<and>
   get_validators stub_rpc False empty_store = Inr spec_example \<and>
   \<not> isl (fst (get_network_info stub_rpc False empty_store)) \<and>
   get_stake_accounts down_rpc False 50 empty_store = (Inr (JList []), empty_store) \<and>
   get_validators down_rpc False empty_store = Inl ConnectionError \<and>
   get_network_info down_rpc False empty_store = (Inl (NetworkInfoFailure ConnectionError), empty_store)"
proof -
  have p: "stub_rpc ''getProgramAccounts'' (stake_scan_params 50) =
      Inr \<lparr> resp_status_code = 200, resp_text = [],
            resp_json = Some (JDict [(''jsonrpc'', JStr ''2.0''), (''error'', limit_exceeded),
                                     (''id'', JInt 1)]) \<rparr>"
    by (simp add: stub_rpc_def)
  have m: "map_of [(''jsonrpc'', JStr ''2.0''), (''error'', limit_exceeded), (''id'', JInt 1)] ''error''
             = Some limit_exceeded"
    by simp
  note thm1 = stake_scan_errors_degrade[of False 50 empty_store stub_rpc "RpcError limit_exceeded"
      "[]" "[(''jsonrpc'', JStr ''2.0''), (''error'', limit_exceeded), (''id'', JInt 1)]" limit_exceeded]
  from thm1 p m
  have e1: "make_rpc_request stub_rpc ''getProgramAccounts'' (stake_scan_params 50) =
              Inl (RpcError limit_exceeded)"
    by blast
  with thm1 have s1: "get_stake_accounts stub_rpc False 50 empty_store = (Inr (JList []), empty_store)"
    by simp
  have v1: "get_validators stub_rpc False empty_store = Inr spec_example"
    by code_simp
  have n1: "\<not> isl (fst (get_network_info stub_rpc False empty_store))"
    by code_simp
  note thm2 = stake_scan_errors_degrade[of False 50 empty_store down_rpc ConnectionError]
  have e2: "make_rpc_request down_rpc ''getProgramAccounts'' (stake_scan_params 50) = Inl ConnectionError"
    "make_rpc_request down_rpc ''getVoteAccounts'' JNone = Inl ConnectionError"
    "fetch_network_info down_rpc False empty_store = Inl ConnectionError"
    by (simp_all add: make_rpc_request_def down_rpc_def and_then_def fetch_network_info_def
          get_epoch_info_def)
  from thm2 e2
  have s2: "get_stake_accounts down_rpc False 50 empty_store = (Inr (JList []), empty_store)"
    and v2: "get_validators down_rpc False empty_store = Inl ConnectionError"
    and n2: "get_network_info down_rpc False empty_store =
               (Inl (NetworkInfoFailure ConnectionError), empty_store)"
    by simp_all
  from e1 s1 v1 n1 s2 v2 n2 show ?thesis by simp
qed

section \<open>The network fetch feeding the aggregator\<close>

lemma fetch_network_info_shape:
  assumes "fetch_network_info post use_cache st = Inr v"
  shows "\<exists>e i s va p r.
           v = JDict [(''epoch'', e), (''inflation'', i), (''supply'', s), (''validators'', va),
                      (''performance'', p), (''raw_data'', r)]"
  using assms unfolding fetch_network_info_def and_then_Inr Let_def by blast

lemma process_network_info_without_keys:
  assumes "map_of kvs ''epoch_info'' = None" and "map_of kvs ''inflation_rate'' = None"
    and "map_of kvs ''supply_info'' = None" and "map_of kvs ''cluster_nodes'' = None"
    and "map_of kvs ''slot_info'' = None"
  shows "\<exists>out. process_network_info (JDict kvs) df = Inr out \<and> zero_defaults out \<and>
           supply_staked out = sum_list (map activatedStake df)"
  using assms
  by (simp add: process_network_info_def and_then_def epoch_progress_def hours_remaining_def
        as_num_def py_sub_def supply_figure_def Let_def zero_defaults_def)

text \<open>
  Claim C10, as the code has it. A value returned by the RPC path of the network fetch
  has the keys \<^verbatim>\<open>epoch\<close>, \<^verbatim>\<open>inflation\<close>, \<^verbatim>\<open>supply\<close>, \<^verbatim>\<open>validators\<close>,
  \<^verbatim>\<open>performance\<close> and \<^verbatim>\<open>raw_data\<close> and none of the keys the aggregation reads.
  So network aggregation of it succeeds on every validator table and gives the epoch
  number, slot counts, progress, hours remaining, inflation rates, total and circulating
  supply, staking ratio, current slot and node count at their zero defaults; the same
  holds inside the aggregator built by the refresh. The staked supply is not read from
  the value: it is the sum of the validator table's stakes.
\<close>

theorem rpc_network_info_zero_defaults:
  assumes "(if use_cache then get_latest_network_info st else None) = None"
    and "get_network_info post use_cache st = (Inr v, st')"
  shows "(\<exists>out. process_network_info v df = Inr out \<and> zero_defaults out \<and>
                supply_staked out = sum_list (map activatedStake df)) \<and>
         (\<forall>vi sa p. DataProcessor vi v sa = Inr p \<longrightarrow> zero_defaults (processed_network_info p))"
proof -
  from assms have f: "fetch_network_info post use_cache st = Inr v"
    by (auto simp: get_network_info_def split: sum.splits)
  from fetch_network_info_shape[OF f] obtain e i s va p r where
    v: "v = JDict [(''epoch'', e), (''inflation'', i), (''supply'', s), (''validators'', va),
                   (''performance'', p), (''raw_data'', r)]"
    by blast
  have z: "\<exists>out. process_network_info v df = Inr out \<and> zero_defaults out \<and>
                supply_staked out = sum_list (map activatedStake df)" for df
    unfolding v by (rule process_network_info_without_keys) simp_all
  have "zero_defaults (processed_network_info p)" if "DataProcessor vi v sa = Inr p" for vi sa p
    using z[of "processed_validators p"] DataProcessor_network[OF that] by auto
  with z show ?thesis by blast
qed

text \<open>
  The example endpoint reports epoch 700 with 432000 slots; the fetched value holds
  them under \<^verbatim>\<open>raw_data\<close>, and the aggregator built from it shows zeros.
\<close>

theorem rpc_network_info_zero_defaults_witness:
  "get_network_info stub_rpc False empty_store =
     (Inr stub_network_info, snd (get_network_info stub_rpc False empty_store)) \<and>
   and_then (py_getitem stub_network_info ''raw_data'') (\<lambda>r. py_getitem r ''epoch_info'') =
     Inr example_epoch_info \<and>
   DataProcessor spec_example stub_network_info (JList []) =
     Inr (projr (DataProcessor spec_example stub_network_info (JList []))) \<and>
   zero_defaults
     (processed_network_info (projr (DataProcessor spec_example stub_network_info (JList []))))"
proof -
  have c: "(if False then get_latest_network_info empty_store else None) = None"
    by simp
  have g: "get_network_info stub_rpc False empty_store =
     (Inr stub_network_info, snd (get_network_info stub_rpc False empty_store))"
    by code_simp
  have r: "and_then (py_getitem stub_network_info ''raw_data'') (\<lambda>r. py_getitem r ''epoch_info'') =
     Inr example_epoch_info"
    by code_simp
  have d: "DataProcessor spec_example stub_network_info (JList []) =
     Inr (projr (DataProcessor spec_example stub_network_info (JList [])))"
    by code_simp
  from rpc_network_info_zero_defaults[OF c g] d
  have "zero_defaults
     (processed_network_info (projr (DataProcessor spec_example stub_network_info (JList []))))"
    by blast
  with g r d show ?thesis by simp
qed

text \<open>
  Claim C10 as stated fails for the staked supply, one of the supply figures: with the
  example validators (stakes 100, 50, 50) it is 200, while total and circulating
  supply are 0.
\<close>

theorem staked_supply_is_not_zero:
  "map_sum id (\<lambda>p. (supply_staked (processed_network_info p),
                     supply_total (processed_network_info p),
                     supply_circulating (processed_network_info p)))
     (DataProcessor spec_example stub_network_info (JList [])) =
   Inr (200, 0, 0)"
  by code_simp

section \<open>The time to the end of the epoch\<close>

lemma fetch_hours_is_five_times:
  assumes "hours_remaining slot_index slots_in_epoch = Inr h"
  shows "fetch_hours_remaining slot_index slots_in_epoch = Inr (JFloat (5 * h))"
  using assms
  by (auto simp: hours_remaining_def fetch_hours_remaining_def and_then_Inr seconds_per_slot_def)

text \<open>
  Claim C8 fails on the code: the two paths use different slot durations, 0.4 seconds
  in the aggregator and 2 seconds in the network fetch. At slot 0 of an epoch of 432000
  slots the aggregator computes 48 hours and the fetch 240 hours.
\<close>

theorem hours_remaining_paths_disagree:
  "hours_remaining (JInt 0) (JInt 432000) = Inr 48 \<and>
   fetch_hours_remaining (JInt 0) (JInt 432000) = Inr (JFloat 240) \<and>
   epoch_hours_remaining
     (projr (process_network_info (JDict [(''epoch_info'', example_epoch_info)]) [])) = 48 \<and>
   and_then (py_getitem stub_network_info ''epoch'') (\<lambda>e. py_getitem e ''hours_remaining'') =
     Inr (JFloat 240)"
  by code_simp

section \<open>Missing optional fields\<close>

lemma is_number_float: "is_number x \<Longrightarrow> \<exists>r. py_float x = Inr r"
  by (cases x) (auto simp: is_number_def)

lemma is_number_as_num: "is_number x \<Longrightarrow> \<exists>r. as_num x = Inr r"
  by (cases x) (auto simp: is_number_def as_num_def)

lemma is_number_sub: "is_number a \<Longrightarrow> is_number b \<Longrightarrow> \<exists>c. py_sub a b = Inr c \<and> is_number c"
  by (cases a; cases b) (auto simp: is_number_def py_sub_def)

lemma dict_withE: "dict_with P v \<Longrightarrow> (\<And>kvs. v = JDict kvs \<Longrightarrow> P kvs \<Longrightarrow> Q) \<Longrightarrow> Q"
  by (cases v) auto

lemma list_withE: "list_with P v \<Longrightarrow> (\<And>xs. v = JList xs \<Longrightarrow> P xs \<Longrightarrow> Q) \<Longrightarrow> Q"
  by (cases v) auto

lemma shaped_stake_sol:
  assumes "shaped_validator v"
  shows "\<exists>s. activated_stake_sol v = Inr s"
proof -
  from assms obtain kvs where v: "v = JDict kvs" and a: "absent_or is_number kvs ''activatedStake''"
    unfolding shaped_validator_def by (auto elim: dict_withE)
  show ?thesis
  proof (cases "map_of kvs ''activatedStake''")
    case None
    then show ?thesis by (simp add: v activated_stake_sol_def and_then_def)
  next
    case (Some x)
    with a have "is_number x" by (simp add: absent_or_def)
    from is_number_float[OF this] obtain r where "py_float x = Inr r" by blast
    with Some have "activated_stake_sol v = Inr (r / 10 ^ 9)"
      by (simp add: v activated_stake_sol_def and_then_def)
    then show ?thesis by blast
  qed
qed

lemma shaped_credits_ok:
  assumes "shaped_validator v"
  shows "\<exists>c. current_epoch_credits v = Inr c"
proof -
  from assms obtain kvs where v: "v = JDict kvs" and a: "absent_or shaped_credits kvs ''epochCredits''"
    unfolding shaped_validator_def by (auto elim: dict_withE)
  show ?thesis
  proof (cases "map_of kvs ''epochCredits''")
    case None
    then show ?thesis by (simp add: v current_epoch_credits_def and_then_def)
  next
    case (Some x)
    with a have "shaped_credits x" by (simp add: absent_or_def)
    then obtain es where x: "x = JList es" and es: "es = [] \<or> list_with counters (last es)"
      unfolding shaped_credits_def by (auto elim: list_withE)
    show ?thesis
    proof (cases "es = []")
      case True
      then show ?thesis using Some x by (simp add: v current_epoch_credits_def and_then_def)
    next
      case False
      with es obtain cs where l: "last es = JList cs" and c: "counters cs"
        by (auto elim: list_withE)
      from c obtain a b rest where cs: "cs = a # b # rest" and n: "is_number a" "is_number b"
        by (cases cs rule: counters.cases) auto
      from is_number_sub[OF n(2) n(1)] obtain d where d: "py_sub b a = Inr d" by blast
      have "py_index (JList es) (- 1) = Inr (JList (a # b # rest))"
        using False l cs by (simp add: last_index)
      moreover have "py_index (JList (a # b # rest)) 1 = Inr b" "py_index (JList (a # b # rest)) 0 = Inr a"
        by (simp_all add: list_index_def)
      moreover have "truthy (JList es)" using False by simp
      ultimately show ?thesis
        using Some x d unfolding v current_epoch_credits_def
        by (simp only: dict_get.simps option.case and_then_def sum.case if_True) blast
    qed
  qed
qed

lemma absent_or_get:
  "absent_or P kvs k \<Longrightarrow> P d \<Longrightarrow> \<exists>x. dict_get (JDict kvs) k d = Inr x \<and> P x"
  by (cases "map_of kvs k") (simp_all add: absent_or_def)

lemma shaped_all_validators:
  assumes "shaped_validators_info vi"
  shows "\<exists>cur del. dict_get vi ''current'' (JList []) = Inr (JList cur) \<and>
           all_validators vi = Inr (cur @ del) \<and> list_all shaped_validator (cur @ del)"
proof -
  from assms obtain kvs where vi: "vi = JDict kvs"
    and c: "absent_or (list_with (list_all shaped_validator)) kvs ''current''"
    and d: "absent_or (list_with (list_all shaped_validator)) kvs ''delinquent''"
    unfolding shaped_validators_info_def by (auto elim: dict_withE)
  from absent_or_get[OF c, of "JList []"] obtain cur where
    cur: "dict_get (JDict kvs) ''current'' (JList []) = Inr (JList cur)" "list_all shaped_validator cur"
    by (auto elim: list_withE)
  from absent_or_get[OF d, of "JList []"] obtain del where
    del: "dict_get (JDict kvs) ''delinquent'' (JList []) = Inr (JList del)" "list_all shaped_validator del"
    by (auto elim: list_withE)
  have "all_validators vi = Inr (cur @ del)"
    unfolding all_validators_def vi
    by (simp only: cur del and_then_def sum.case list_concat_def json.case)
  with cur del show ?thesis unfolding vi by auto
qed

lemma shaped_process_validator:
  assumes "shaped_validator v" and "dict_get vi ''current'' (JList []) = Inr (JList cur)"
  shows "\<exists>e. process_validator vi t v = Inr e \<and> is_number (commission e)"
proof -
  from shaped_stake_sol[OF assms(1)] obtain s where s: "activated_stake_sol v = Inr s" by blast
  from shaped_credits_ok[OF assms(1)] obtain c where c: "current_epoch_credits v = Inr c" by blast
  from assms(1) obtain kvs where v: "v = JDict kvs" and a: "absent_or is_number kvs ''commission''"
    unfolding shaped_validator_def by (auto elim: dict_withE)
  from absent_or_get[OF a, of "JInt 0"] obtain m where
    m: "dict_get (JDict kvs) ''commission'' (JInt 0) = Inr m" "is_number m"
    by (auto simp: is_number_def)
  have others: "\<exists>x. dict_get (JDict kvs) k d = Inr x" for k d by simp
  from others[of "''nodePubkey''" "JStr ''Unknown''"] obtain n where
    n: "dict_get (JDict kvs) ''nodePubkey'' (JStr ''Unknown'') = Inr n" by blast
  from others[of "''votePubkey''" "JStr ''Unknown''"] obtain w where
    w: "dict_get (JDict kvs) ''votePubkey'' (JStr ''Unknown'') = Inr w" by blast
  from others[of "''lastVote''" "JInt 0"] obtain l where
    l: "dict_get (JDict kvs) ''lastVote'' (JInt 0) = Inr l" by blast
  from others[of "''rootSlot''" "JInt 0"] obtain r where
    r: "dict_get (JDict kvs) ''rootSlot'' (JInt 0) = Inr r" by blast
  show ?thesis
    unfolding process_validator_def
    using s c assms(2) m n w l r unfolding v
    by (simp only: and_then_def sum.case Let_def py_in.simps) (simp add: m(2))
qed

lemma shaped_apy_rate:
  assumes "shaped_network_info ni"
  shows "\<exists>r. apy_inflation_rate ni = Inr r \<and> is_number r"
proof -
  from assms obtain kvs where ni: "ni = JDict kvs"
    and a: "absent_or (dict_with (\<lambda>r. absent_or is_number r ''total'')) kvs ''inflation_rate''"
    unfolding shaped_network_info_def by (auto elim: dict_withE)
  from absent_or_get[OF a, of "JDict []"] obtain rates where
    r: "dict_get (JDict kvs) ''inflation_rate'' (JDict []) = Inr (JDict rates)"
       "absent_or is_number rates ''total''"
    by (auto simp: absent_or_def elim: dict_withE)
  from absent_or_get[OF r(2), of "JFloat 8"] obtain x where
    "dict_get (JDict rates) ''total'' (JFloat 8) = Inr x" "is_number x"
    by (auto simp: is_number_def)
  then show ?thesis
    unfolding apy_inflation_rate_def ni by (simp only: r(1) and_then_def sum.case) simp
qed

lemma estimated_apy_total:
  "is_number r \<Longrightarrow> is_number c \<Longrightarrow> \<exists>a. estimated_apy r c = Inr a"
  by (auto simp: is_number_def estimated_apy_def)

lemma shaped_process_validators:
  assumes "shaped_validators_info vi" and "shaped_network_info ni"
  shows "\<exists>rows. process_validators vi ni = Inr rows"
proof -
  from shaped_all_validators[OF assms(1)] obtain cur del where
    cur: "dict_get vi ''current'' (JList []) = Inr (JList cur)"
    and av: "all_validators vi = Inr (cur @ del)"
    and sh: "list_all shaped_validator (cur @ del)"
    by blast
  have "\<exists>stakes. for_each activated_stake_sol (cur @ del) = Inr stakes"
    using sh by (intro for_each_total shaped_stake_sol) (simp add: list_all_iff)
  then obtain stakes where st: "for_each activated_stake_sol (cur @ del) = Inr stakes" by blast
  have "\<exists>entries. for_each (process_validator vi (sum_list stakes)) (cur @ del) = Inr entries \<and>
          list_all (\<lambda>e. is_number (commission e)) entries"
  proof (rule for_each_total_with)
    fix v assume "v \<in> set (cur @ del)"
    with sh have "shaped_validator v" by (simp add: list_all_iff)
    from shaped_process_validator[OF this cur, of "sum_list stakes"]
    show "\<exists>e. process_validator vi (sum_list stakes) v = Inr e \<and> is_number (commission e)" .
  qed
  then obtain entries where
    en: "for_each (process_validator vi (sum_list stakes)) (cur @ del) = Inr entries"
    and cm: "\<And>e. e \<in> set entries \<Longrightarrow> is_number (commission e)"
    by (auto simp: list_all_iff)
  from shaped_apy_rate[OF assms(2)] obtain rate where
    rate: "apy_inflation_rate ni = Inr rate" "is_number rate" by blast
  have "\<exists>rows. for_each (\<lambda>e.
           and_then (estimated_apy rate (commission e)) (\<lambda>apy.
           Inr (validator_entry.extend e
                  \<lparr> rank = rank_min_desc (map activatedStake entries) (activatedStake e),
                    estimatedAPY = apy \<rparr>))) entries = Inr rows"
  proof (rule for_each_total)
    fix e assume "e \<in> set entries"
    from estimated_apy_total[OF rate(2) cm[OF this]] obtain a where
      "estimated_apy rate (commission e) = Inr a" by blast
    then show "\<exists>y. and_then (estimated_apy rate (commission e)) (\<lambda>apy.
           Inr (validator_entry.extend e
                  \<lparr> rank = rank_min_desc (map activatedStake entries) (activatedStake e),
                    estimatedAPY = apy \<rparr>)) = Inr y"
      by (simp add: and_then_def)
  qed
  then show ?thesis
    unfolding process_validators_def
    by (simp only: av st en rate(1) and_then_def sum.case Let_def) (simp split: if_splits)
qed

lemma shaped_epoch:
  assumes "absent_or is_number e ''slotsInEpoch''" and "absent_or is_number e ''slotIndex''"
  shows "\<exists>n i p h. dict_get (JDict e) ''slotsInEpoch'' (JInt 0) = Inr n \<and>
           dict_get (JDict e) ''slotIndex'' (JInt 0) = Inr i \<and>
           epoch_progress i n = Inr p \<and> hours_remaining i n = Inr h"
proof -
  from absent_or_get[OF assms(1), of "JInt 0"] obtain n where
    n: "dict_get (JDict e) ''slotsInEpoch'' (JInt 0) = Inr n" "is_number n"
    by (auto simp: is_number_def)
  from absent_or_get[OF assms(2), of "JInt 0"] obtain i where
    i: "dict_get (JDict e) ''slotIndex'' (JInt 0) = Inr i" "is_number i"
    by (auto simp: is_number_def)
  from is_number_as_num[OF n(2)] obtain nr where nr: "as_num n = Inr nr" by blast
  from is_number_as_num[OF i(2)] obtain ir where ir: "as_num i = Inr ir" by blast
  from is_number_sub[OF n(2) i(2)] obtain d where d: "py_sub n i = Inr d" "is_number d" by blast
  from is_number_as_num[OF d(2)] obtain dr where dr: "as_num d = Inr dr" by blast
  have "\<exists>p. epoch_progress i n = Inr p"
    by (simp add: epoch_progress_def nr ir and_then_def)
  moreover have "hours_remaining i n = Inr (dr * seconds_per_slot / 3600)"
    by (simp add: hours_remaining_def d dr and_then_def)
  ultimately show ?thesis using n(1) i(1) by blast
qed

lemma shaped_supply_figure:
  assumes "absent_or shaped_supply_value s ''value''" and "k = ''total'' \<or> k = ''circulating''"
  shows "\<exists>x. supply_figure (JDict s) k = Inr x"
proof (cases "map_of s ''value''")
  case None
  then show ?thesis by (simp add: supply_figure_def and_then_def)
next
  case (Some v)
  show ?thesis
  proof (cases "truthy v")
    case False
    with Some show ?thesis by (simp add: supply_figure_def and_then_def)
  next
    case True
    with assms(1) Some obtain f where v: "v = JDict f"
      and f: "absent_or is_number f ''total''" "absent_or is_number f ''circulating''"
      by (auto simp: absent_or_def shaped_supply_value_def elim: dict_withE)
    from f assms(2) have "absent_or is_number f k" by auto
    from absent_or_get[OF this, of "JInt 0"] obtain x where
      x: "dict_get (JDict f) k (JInt 0) = Inr x" "is_number x"
      by (auto simp: is_number_def)
    from is_number_float[OF x(2)] obtain r where "py_float x = Inr r" by blast
    with x(1) True Some have "supply_figure (JDict s) k = Inr (r / 10 ^ 9)"
      unfolding supply_figure_def v by (simp add: and_then_def)
    then show ?thesis by blast
  qed
qed

lemma shaped_process_network_info:
  assumes "shaped_network_info ni"
  shows "\<exists>out. process_network_info ni df = Inr out"
proof -
  from assms obtain kvs where ni: "ni = JDict kvs"
    and a: "absent_or (dict_with (\<lambda>e. absent_or is_number e ''slotsInEpoch'' \<and>
                                  absent_or is_number e ''slotIndex'')) kvs ''epoch_info''"
    and b: "absent_or (dict_with (\<lambda>r. absent_or is_number r ''total'')) kvs ''inflation_rate''"
    and c: "absent_or (dict_with (\<lambda>s. absent_or shaped_supply_value s ''value'')) kvs ''supply_info''"
    and d: "absent_or (list_with (\<lambda>nodes. True)) kvs ''cluster_nodes''"
    unfolding shaped_network_info_def by (auto elim: dict_withE)
  from absent_or_get[OF a, of "JDict []"] obtain e where
    e: "dict_get (JDict kvs) ''epoch_info'' (JDict []) = Inr (JDict e)"
       "absent_or is_number e ''slotsInEpoch''" "absent_or is_number e ''slotIndex''"
    by (auto simp: absent_or_def elim: dict_withE)
  from shaped_epoch[OF e(2,3)] obtain n i p h where
    ep: "dict_get (JDict e) ''slotsInEpoch'' (JInt 0) = Inr n"
        "dict_get (JDict e) ''slotIndex'' (JInt 0) = Inr i"
        "epoch_progress i n = Inr p" "hours_remaining i n = Inr h"
    by blast
  from absent_or_get[OF b, of "JDict []"] obtain r where
    r: "dict_get (JDict kvs) ''inflation_rate'' (JDict []) = Inr (JDict r)"
    by (auto simp: absent_or_def elim: dict_withE)
  from absent_or_get[OF c, of "JDict []"] obtain s where
    s: "dict_get (JDict kvs) ''supply_info'' (JDict []) = Inr (JDict s)"
       "absent_or shaped_supply_value s ''value''"
    by (auto simp: absent_or_def elim: dict_withE)
  from shaped_supply_figure[OF s(2), of "''total''"] obtain ts where
    ts: "supply_figure (JDict s) ''total'' = Inr ts" by blast
  from shaped_supply_figure[OF s(2), of "''circulating''"] obtain cs where
    cs: "supply_figure (JDict s) ''circulating'' = Inr cs" by blast
  from absent_or_get[OF d, of "JList []"] obtain nodes where
    nodes: "dict_get (JDict kvs) ''cluster_nodes'' (JList []) = Inr (JList nodes)"
    by (auto elim: list_withE)
  obtain ce where ce: "dict_get (JDict e) ''epoch'' (JInt 0) = Inr ce" by simp
  obtain sl where sl: "dict_get (JDict kvs) ''slot_info'' (JInt 0) = Inr sl" by simp
  obtain it where it: "dict_get (JDict r) ''total'' (JInt 0) = Inr it" by simp
  obtain iv where iv: "dict_get (JDict r) ''validator'' (JInt 0) = Inr iv" by simp
  obtain ifo where ifo: "dict_get (JDict r) ''foundation'' (JInt 0) = Inr ifo" by simp
  show ?thesis
    unfolding process_network_info_def ni
    by (simp only: e(1) ce ep r s(1) ts cs nodes sl it iv ifo and_then_def sum.case Let_def
          py_len.simps) blast
qed












section \<open>Stake percentages of the input validators\<close>

lemma all_validators_lists:
  assumes "map_of kvs ''current'' = Some (JList cur)" and "map_of kvs ''delinquent'' = Some (JList del)"
  shows "all_validators (JDict kvs) = Inr (cur @ del)"
  using assms by (simp add: all_validators_def and_then_def list_concat_def)

lemma activated_stake_sol_int:
  assumes "map_of kvs ''activatedStake'' = Some (JInt n)"
  shows "activated_stake_sol (JDict kvs) = Inr (of_int n / 10 ^ 9)"
  using assms by (simp add: activated_stake_sol_def and_then_def)

lemma percentages_of_stakes:
  assumes "process_validators vi ni = Inr rows"
  shows "map stakePercentage rows =
           map (\<lambda>s. if 0 < sum_list (map activatedStake rows)
                     then s / sum_list (map activatedStake rows) * 100 else 0)
               (map activatedStake rows)"
  using row_fields(1)[OF assms] by (simp only: map_map o_def map_eq_conv) simp

lemma percentages_sum:
  fixes stakes :: "rat list"
  assumes "0 < sum_list stakes"
  shows "sum_list (map (\<lambda>s. if 0 < sum_list stakes then s / sum_list stakes * 100 else 0) stakes) = 100"
proof -
  have "sum_list (map (\<lambda>s. if 0 < sum_list stakes then s / sum_list stakes * 100 else 0) stakes) =
        sum_list (map (\<lambda>s. s / sum_list stakes * 100) stakes)"
    using assms by simp
  also have "\<dots> = sum_list (map (\<lambda>s. s) stakes) / sum_list stakes * 100"
    by (rule sum_list_scaled)
  also have "\<dots> = 100" using assms by simp
  finally show ?thesis .
qed

text \<open>
  Claim C2. Validator aggregation returns a table for every validator list of the
  expected shape. A returned table has one row per validator of the merged input list
  (current, then delinquent), in order; the row carries the validator's activated stake
  in tokens (for an integer amount, the base units divided by \<^verbatim>\<open>10**9\<close>) and, as
  stake percentage, that stake divided by the total activated stake of the input times
  100 when the total is positive, and 0 otherwise. Hence the stake percentages sum to
  exactly 100 whenever the total activated stake is positive, and every stake
  percentage is 0 when the total is 0. Arithmetic is exact (rationals).
\<close>

theorem stake_percentage_sum:
  "(shaped_validators_info vi \<and> shaped_network_info ni \<longrightarrow>
      (\<exists>rows. process_validators vi ni = Inr rows)) \<and>
   (\<forall>rows. process_validators vi ni = Inr rows \<longrightarrow>
      (\<exists>vs stakes.
         all_validators vi = Inr vs \<and>
         for_each activated_stake_sol vs = Inr stakes \<and>
         length rows = length vs \<and>
         map activatedStake rows = stakes \<and>
         map stakePercentage rows =
           map (\<lambda>s. if 0 < sum_list stakes then s / sum_list stakes * 100 else 0) stakes \<and>
         (0 < sum_list stakes \<longrightarrow> sum_list (map stakePercentage rows) = 100) \<and>
         (sum_list stakes = 0 \<longrightarrow> (\<forall>r \<in> set rows. stakePercentage r = 0)))) \<and>
   (\<forall>kvs cur del.
      map_of kvs ''current'' = Some (JList cur) \<and> map_of kvs ''delinquent'' = Some (JList del) \<longrightarrow>
      all_validators (JDict kvs) = Inr (cur @ del)) \<and>
   (\<forall>kvs n.
      map_of kvs ''activatedStake'' = Some (JInt n) \<longrightarrow>
      activated_stake_sol (JDict kvs) = Inr (of_int n / 10 ^ 9))"
proof -
  have total: "shaped_validators_info vi \<and> shaped_network_info ni \<longrightarrow>
      (\<exists>rows. process_validators vi ni = Inr rows)"
    using shaped_process_validators[of vi ni] by blast
  have run: "\<exists>vs stakes.
         all_validators vi = Inr vs \<and>
         for_each activated_stake_sol vs = Inr stakes \<and>
         length rows = length vs \<and>
         map activatedStake rows = stakes \<and>
         map stakePercentage rows =
           map (\<lambda>s. if 0 < sum_list stakes then s / sum_list stakes * 100 else 0) stakes \<and>
         (0 < sum_list stakes \<longrightarrow> sum_list (map stakePercentage rows) = 100) \<and>
         (sum_list stakes = 0 \<longrightarrow> (\<forall>r \<in> set rows. stakePercentage r = 0))"
    if r: "process_validators vi ni = Inr rows" for rows
  proof -
    from process_validators_Inr[OF r] obtain vs stakes where
      vs: "all_validators vi = Inr vs" and
      st: "for_each activated_stake_sol vs = Inr stakes" and
      eq: "map activatedStake rows = stakes"
      by blast
    have len: "length rows = length vs" by (rule rows_length[OF r vs])
    have pc: "map stakePercentage rows =
           map (\<lambda>s. if 0 < sum_list stakes then s / sum_list stakes * 100 else 0) stakes"
      using percentages_of_stakes[OF r] unfolding eq .
    have pos: "sum_list (map stakePercentage rows) = 100" if "0 < sum_list stakes"
      unfolding pc by (rule percentages_sum[OF that])
    have zero: "\<forall>r \<in> set rows. stakePercentage r = 0" if "sum_list stakes = 0"
      using row_fields(1)[OF r] that unfolding eq by simp
    from vs st len eq pc pos zero show ?thesis by blast
  qed
  then have run': "\<forall>rows. process_validators vi ni = Inr rows \<longrightarrow>
      (\<exists>vs stakes.
         all_validators vi = Inr vs \<and>
         for_each activated_stake_sol vs = Inr stakes \<and>
         length rows = length vs \<and>
         map activatedStake rows = stakes \<and>
         map stakePercentage rows =
           map (\<lambda>s. if 0 < sum_list stakes then s / sum_list stakes * 100 else 0) stakes \<and>
         (0 < sum_list stakes \<longrightarrow> sum_list (map stakePercentage rows) = 100) \<and>
         (sum_list stakes = 0 \<longrightarrow> (\<forall>r \<in> set rows. stakePercentage r = 0)))"
    by (intro allI impI)
  have av: "\<forall>kvs cur del.
      map_of kvs ''current'' = Some (JList cur) \<and> map_of kvs ''delinquent'' = Some (JList del) \<longrightarrow>
      all_validators (JDict kvs) = Inr (cur @ del)"
    by (intro allI impI) (simp add: all_validators_lists)
  have ss: "\<forall>kvs n.
      map_of kvs ''activatedStake'' = Some (JInt n) \<longrightarrow>
      activated_stake_sol (JDict kvs) = Inr (of_int n / 10 ^ 9)"
    by (intro allI impI) (rule activated_stake_sol_int)
  from total run' av ss show ?thesis by (intro conjI)
qed

text \<open>
  The specification's example (stakes 100, 50, 50): three rows, the total is 200 and
  the percentages 50, 25, 25 sum to 100. A single validator without a stake: the total
  is 0 and so is the percentage.
\<close>

theorem stake_percentage_sum_witness:
  "(\<exists>rows. process_validators spec_example (JDict []) = Inr rows \<and>
      length rows = 3 \<and>
      map activatedStake rows = [100, 50, 50] \<and>
      map stakePercentage rows = [50, 25, 25] \<and>
      sum_list (map stakePercentage rows) = 100) \<and>
   (\<exists>rows. process_validators bare_validators (JDict []) = Inr rows \<and>
      length rows = 1 \<and>
      map activatedStake rows = [0] \<and>
      (\<forall>r \<in> set rows. stakePercentage r = 0))"
proof -
  have sh: "shaped_validators_info spec_example \<and> shaped_network_info (JDict [])"
    by code_simp
  have av: "all_validators spec_example =
      Inr [validator_with_stake 100, validator_with_stake 50, validator_with_stake 50]"
    by code_simp
  have st: "for_each activated_stake_sol
      [validator_with_stake 100, validator_with_stake 50, validator_with_stake 50] = Inr [100, 50, 50]"
    by code_simp
  note inst = stake_percentage_sum[of spec_example "JDict []"]
  from inst[THEN conjunct1] sh obtain rows where
    rows: "process_validators spec_example (JDict []) = Inr rows" by blast
  from inst[THEN conjunct2, THEN conjunct1, rule_format, OF rows] av st
  have a: "length rows = 3 \<and> map activatedStake rows = [100, 50, 50] \<and>
      map stakePercentage rows = [50, 25, 25] \<and> sum_list (map stakePercentage rows) = 100"
    by auto
  have sh0: "shaped_validators_info bare_validators \<and> shaped_network_info (JDict [])"
    by code_simp
  have av0: "all_validators bare_validators = Inr [JDict []]"
    by code_simp
  have st0: "for_each activated_stake_sol [JDict []] = Inr [0]"
    by code_simp
  note inst0 = stake_percentage_sum[of bare_validators "JDict []"]
  from inst0[THEN conjunct1] sh0 obtain rows0 where
    rows0: "process_validators bare_validators (JDict []) = Inr rows0" by blast
  from inst0[THEN conjunct2, THEN conjunct1, rule_format, OF rows0] av0 st0
  have b: "length rows0 = 1 \<and> map activatedStake rows0 = [0] \<and>
      (\<forall>r \<in> set rows0. stakePercentage r = 0)"
    by auto
  have A: "\<exists>rows. process_validators spec_example (JDict []) = Inr rows \<and>
      length rows = 3 \<and>
      map activatedStake rows = [100, 50, 50] \<and>
      map stakePercentage rows = [50, 25, 25] \<and>
      sum_list (map stakePercentage rows) = 100"
    using rows a by (intro exI[of _ rows]) simp
  have B: "\<exists>rows. process_validators bare_validators (JDict []) = Inr rows \<and>
      length rows = 1 \<and>
      map activatedStake rows = [0] \<and>
      (\<forall>r \<in> set rows. stakePercentage r = 0)"
    using rows0 b by (intro exI[of _ rows0]) simp
  from A B show ?thesis by (rule conjI)
qed

section \<open>Credits of the input validators\<close>

lemma py_sub_numbers:
  assumes "num_val a = Some x" and "num_val b = Some y"
  shows "\<exists>c. py_sub b a = Inr c \<and> num_val c = Some (y - x)"
  using assms by (cases a; cases b) (auto simp: py_sub_def split: if_splits)

lemma credits_of_rows:
  assumes "process_validators vi ni = Inr rows" and "all_validators vi = Inr vs" and "i < length vs"
  shows "current_epoch_credits (vs ! i) = Inr (credits (rows ! i))"
  using process_validator_fields[OF row_of_validator(1)[OF assms]]
  by (simp only: truncate_fields)

text \<open>
  Claim C5. Validator aggregation returns a table for every validator list of the
  expected shape, with one row per validator of the merged input list, in order. The
  credits of a row are what
  \<^verbatim>\<open>epoch_credits[-1][1] - epoch_credits[-1][0] if epoch_credits else 0\<close> evaluates
  to on its validator: 0 when the validator has no entries (the key is absent, or its
  value is empty), and otherwise the second element minus the first element of the last
  entry, whatever the earlier entries are. For integer counters that is the integer
  difference; for numbers in general it is a number of that value.
\<close>

theorem credits_from_last_entry:
  "(shaped_validators_info vi \<and> shaped_network_info ni \<longrightarrow>
      (\<exists>rows. process_validators vi ni = Inr rows)) \<and>
   (\<forall>rows. process_validators vi ni = Inr rows \<longrightarrow>
      (\<exists>vs. all_validators vi = Inr vs \<and> length rows = length vs \<and>
         (\<forall>i < length vs. current_epoch_credits (vs ! i) = Inr (credits (rows ! i))))) \<and>
   (\<forall>kvs. (case map_of kvs ''epochCredits'' of None \<Rightarrow> True | Some ec \<Rightarrow> \<not> truthy ec) \<longrightarrow>
      current_epoch_credits (JDict kvs) = Inr (JInt 0)) \<and>
   (\<forall>kvs es a b rest.
      map_of kvs ''epochCredits'' = Some (JList es) \<and> es \<noteq> [] \<and> last es = JList (a # b # rest) \<longrightarrow>
      current_epoch_credits (JDict kvs) = py_sub b a) \<and>
   (\<forall>a b. py_sub (JInt b) (JInt a) = Inr (JInt (b - a))) \<and>
   (\<forall>a b x y. num_val a = Some x \<and> num_val b = Some y \<longrightarrow>
      (\<exists>c. py_sub b a = Inr c \<and> num_val c = Some (y - x))) \<and>
   (\<forall>rows vs i kvs es a b rest.
      process_validators vi ni = Inr rows \<and> all_validators vi = Inr vs \<and> i < length vs \<and>
      vs ! i = JDict kvs \<and> map_of kvs ''epochCredits'' = Some (JList es) \<and> es \<noteq> [] \<and>
      last es = JList (JInt a # JInt b # rest) \<longrightarrow>
      credits (rows ! i) = JInt (b - a)) \<and>
   (\<forall>rows vs i kvs.
      process_validators vi ni = Inr rows \<and> all_validators vi = Inr vs \<and> i < length vs \<and>
      vs ! i = JDict kvs \<and>
      (case map_of kvs ''epochCredits'' of None \<Rightarrow> True | Some ec \<Rightarrow> \<not> truthy ec) \<longrightarrow>
      credits (rows ! i) = JInt 0)"
proof -
  have total: "shaped_validators_info vi \<and> shaped_network_info ni \<longrightarrow>
      (\<exists>rows. process_validators vi ni = Inr rows)"
    using shaped_process_validators[of vi ni] by blast
  have run: "\<exists>vs. all_validators vi = Inr vs \<and> length rows = length vs \<and>
         (\<forall>i < length vs. current_epoch_credits (vs ! i) = Inr (credits (rows ! i)))"
    if r: "process_validators vi ni = Inr rows" for rows
  proof -
    from process_validators_Inr[OF r] obtain vs where vs: "all_validators vi = Inr vs" by blast
    have "length rows = length vs" by (rule rows_length[OF r vs])
    moreover have "\<forall>i < length vs. current_epoch_credits (vs ! i) = Inr (credits (rows ! i))"
      using credits_of_rows[OF r vs] by blast
    ultimately show ?thesis using vs by blast
  qed
  then have run': "\<forall>rows. process_validators vi ni = Inr rows \<longrightarrow>
      (\<exists>vs. all_validators vi = Inr vs \<and> length rows = length vs \<and>
         (\<forall>i < length vs. current_epoch_credits (vs ! i) = Inr (credits (rows ! i))))"
    by (intro allI impI)
  have none: "\<forall>kvs. (case map_of kvs ''epochCredits'' of None \<Rightarrow> True | Some ec \<Rightarrow> \<not> truthy ec) \<longrightarrow>
      current_epoch_credits (JDict kvs) = Inr (JInt 0)"
    by (intro allI impI) (rule current_epoch_credits_falsy)
  have sub: "\<forall>kvs es a b rest.
      map_of kvs ''epochCredits'' = Some (JList es) \<and> es \<noteq> [] \<and> last es = JList (a # b # rest) \<longrightarrow>
      current_epoch_credits (JDict kvs) = py_sub b a"
    by (intro allI impI) (simp add: current_epoch_credits_sub)
  have ints: "\<forall>a b. py_sub (JInt b) (JInt a) = Inr (JInt (b - a))"
    by (simp add: py_sub_def)
  have nums: "\<forall>a b x y. num_val a = Some x \<and> num_val b = Some y \<longrightarrow>
      (\<exists>c. py_sub b a = Inr c \<and> num_val c = Some (y - x))"
    by (intro allI impI) (simp add: py_sub_numbers)
  have row: "credits (rows ! i) = JInt (b - a)"
    if h: "process_validators vi ni = Inr rows \<and> all_validators vi = Inr vs \<and> i < length vs \<and>
      vs ! i = JDict kvs \<and> map_of kvs ''epochCredits'' = Some (JList es) \<and> es \<noteq> [] \<and>
      last es = JList (JInt a # JInt b # rest)"
    for rows vs i kvs es a b rest
  proof -
    from h have "current_epoch_credits (JDict kvs) = Inr (credits (rows ! i))"
      using credits_of_rows[of vi ni rows vs i] by simp
    moreover from h have "current_epoch_credits (JDict kvs) = py_sub (JInt b) (JInt a)"
      using current_epoch_credits_sub[of kvs es "JInt a" "JInt b" rest] by simp
    ultimately show ?thesis by (simp add: py_sub_def)
  qed
  then have row': "\<forall>rows vs i kvs es a b rest.
      process_validators vi ni = Inr rows \<and> all_validators vi = Inr vs \<and> i < length vs \<and>
      vs ! i = JDict kvs \<and> map_of kvs ''epochCredits'' = Some (JList es) \<and> es \<noteq> [] \<and>
      last es = JList (JInt a # JInt b # rest) \<longrightarrow>
      credits (rows ! i) = JInt (b - a)"
    by (intro allI impI)
  have row0: "credits (rows ! i) = JInt 0"
    if h: "process_validators vi ni = Inr rows \<and> all_validators vi = Inr vs \<and> i < length vs \<and>
      vs ! i = JDict kvs \<and>
      (case map_of kvs ''epochCredits'' of None \<Rightarrow> True | Some ec \<Rightarrow> \<not> truthy ec)"
    for rows vs i kvs
  proof -
    from h have "current_epoch_credits (JDict kvs) = Inr (credits (rows ! i))"
      using credits_of_rows[of vi ni rows vs i] by simp
    moreover from h have "current_epoch_credits (JDict kvs) = Inr (JInt 0)"
      using current_epoch_credits_falsy[of kvs] by simp
    ultimately show ?thesis by simp
  qed
  then have row0': "\<forall>rows vs i kvs.
      process_validators vi ni = Inr rows \<and> all_validators vi = Inr vs \<and> i < length vs \<and>
      vs ! i = JDict kvs \<and>
      (case map_of kvs ''epochCredits'' of None \<Rightarrow> True | Some ec \<Rightarrow> \<not> truthy ec) \<longrightarrow>
      credits (rows ! i) = JInt 0"
    by (intro allI impI)
  from total run' none sub ints nums row' row0' show ?thesis by (intro conjI)
qed

text \<open>
  The last entry \<^verbatim>\<open>[2, 120, 50]\<close> gives credits 120 - 2 = 118; the validator
  without entries gets 0.
\<close>

theorem credits_from_last_entry_witness:
  "\<exists>rows. process_validators credits_example (JDict []) = Inr rows \<and>
      length rows = 2 \<and> credits (rows ! 0) = JInt 118 \<and> credits (rows ! 1) = JInt 0"
proof -
  have sh: "shaped_validators_info credits_example \<and> shaped_network_info (JDict [])"
    by code_simp
  have av: "all_validators credits_example = Inr [credits_validator, validator_with_stake 1]"
    by code_simp
  have v0: "[credits_validator, validator_with_stake 1] ! 0 =
      JDict [(''activatedStake'', JInt 1000000000),
             (''epochCredits'', JList [JList [JInt 1, JInt 50, JInt 20],
                                       JList [JInt 2, JInt 120, JInt 50]])]"
    by (simp add: credits_validator_def)
  have v1: "[credits_validator, validator_with_stake 1] ! 1 =
      JDict [(''activatedStake'', JInt (1 * 1000000000))]"
    by (simp add: validator_with_stake_def)
  note inst = credits_from_last_entry[of credits_example "JDict []"]
  from inst[THEN conjunct1] sh obtain rows where
    rows: "process_validators credits_example (JDict []) = Inr rows" by blast
  from inst[THEN conjunct2, THEN conjunct1, rule_format, OF rows] av
  have len: "length rows = 2" by auto
  have c0: "credits (rows ! 0) = JInt (120 - 2)"
    by (rule inst[THEN conjunct2, THEN conjunct2, THEN conjunct2, THEN conjunct2, THEN conjunct2,
          THEN conjunct2, THEN conjunct1, rule_format,
          where rows = rows and vs = "[credits_validator, validator_with_stake 1]" and i = 0
            and es = "[JList [JInt 1, JInt 50, JInt 20], JList [JInt 2, JInt 120, JInt 50]]"
            and a = 2 and b = 120 and rest = "[JInt 50]"
            and kvs = "[(''activatedStake'', JInt 1000000000),
                        (''epochCredits'', JList [JList [JInt 1, JInt 50, JInt 20],
                                                  JList [JInt 2, JInt 120, JInt 50]])]"])
       (simp add: rows av credits_validator_def)
  have c1: "credits (rows ! 1) = JInt 0"
    by (rule inst[THEN conjunct2, THEN conjunct2, THEN conjunct2, THEN conjunct2, THEN conjunct2,
          THEN conjunct2, THEN conjunct2, rule_format,
          where rows = rows and vs = "[credits_validator, validator_with_stake 1]" and i = 1
            and kvs = "[(''activatedStake'', JInt (1 * 1000000000))]"])
       (simp add: rows av validator_with_stake_def)
  show ?thesis
    using rows len c0 c1 by (intro exI[of _ rows]) simp
qed

section \<open>Stake distribution of the input samples\<close>

lemma shaped_sample:
  assumes "shaped_account a"
  shows "\<exists>x. stake_account_of a = Inr x \<and> balance x = sample_balance a \<and> pubkey x = sample_pubkey a"
proof -
  from assms obtain kvs where a: "a = JDict kvs"
    and acc: "absent_or (dict_with (\<lambda>d. absent_or is_number d ''lamports'' \<and>
                                  absent_or shaped_data d ''data'')) kvs ''account''"
    unfolding shaped_account_def by (auto elim: dict_withE)
  from absent_or_get[OF acc, of "JDict []"] obtain d where
    d: "dict_get (JDict kvs) ''account'' (JDict []) = Inr (JDict d)"
       "absent_or is_number d ''lamports''" "absent_or shaped_data d ''data''"
    by (auto simp: absent_or_def elim: dict_withE)
  from absent_or_get[OF d(2), of "JInt 0"] obtain l where
    l: "dict_get (JDict d) ''lamports'' (JInt 0) = Inr l" "is_number l"
    by (auto simp: is_number_def)
  from is_number_as_num[OF l(2)] obtain lr where lr: "as_num l = Inr lr" by blast
  have bal: "sample_lamports a = lr"
    using d(1) l(1) lr unfolding a sample_lamports_def
    by (auto simp: as_num_def split: option.splits json.splits)
  from absent_or_get[OF d(3), of "JDict []"] obtain dat where
    dat: "dict_get (JDict d) ''data'' (JDict []) = Inr dat" "shaped_data dat"
    by (auto simp: absent_or_def)
  have "\<exists>pd. parsed_info dat = Inr pd"
  proof (cases dat)
    case (JDict dd)
    with dat(2) have "absent_or (dict_with (\<lambda>p. True)) dd ''parsed''" by simp
    from absent_or_get[OF this, of "JDict []"] obtain pp where
      "dict_get (JDict dd) ''parsed'' (JDict []) = Inr (JDict pp)"
      by (auto elim: dict_withE)
    then show ?thesis unfolding JDict parsed_info_def by (simp add: and_then_def)
  qed (simp_all add: parsed_info_def)
  then obtain pd where pd: "parsed_info dat = Inr pd" by blast
  have key: "dict_get (JDict kvs) ''pubkey'' (JStr ''Unknown'') = Inr (sample_pubkey a)"
    unfolding a sample_pubkey_def by simp
  have "stake_account_of a =
      Inr \<lparr> pubkey = sample_pubkey a, balance = lr / 10 ^ 9, parsed = pd \<rparr>"
    unfolding stake_account_of_def using key d(1) l(1) lr dat(1) pd unfolding a
    by (simp only: and_then_def sum.case)
  then show ?thesis by (simp add: sample_balance_def bal)
qed

lemma shaped_samples:
  assumes "list_all shaped_account samples"
  shows "\<exists>df. for_each stake_account_of samples = Inr df \<and>
           list_all2 (\<lambda>a x. balance x = sample_balance a \<and> pubkey x = sample_pubkey a) samples df"
  using assms
proof (induction samples)
  case Nil
  show ?case by simp
next
  case (Cons a samples)
  from Cons.prems have "shaped_account a" by simp
  from shaped_sample[OF this] obtain x where
    x: "stake_account_of a = Inr x" "balance x = sample_balance a" "pubkey x = sample_pubkey a"
    by blast
  from Cons.IH Cons.prems obtain df where
    df: "for_each stake_account_of samples = Inr df"
        "list_all2 (\<lambda>a x. balance x = sample_balance a \<and> pubkey x = sample_pubkey a) samples df"
    by auto
  show ?case
    using x df by (intro exI[of _ "x # df"]) (simp add: and_then_def)
qed

lemma frame_of_samples:
  assumes "list_all2 (\<lambda>a x. balance x = sample_balance a \<and> pubkey x = sample_pubkey a) samples df"
  shows "length df = length samples"
    and "map balance df = map sample_balance samples"
    and "group_count (\<lambda>a. pubkey a \<noteq> JNone) df k =
           length (filter (\<lambda>a. sample_pubkey a \<noteq> JNone) (bucket k samples))"
    and "group_total_sol df k = sum_list (map sample_balance (bucket k samples))"
  using assms
  by (induction samples df rule: list_all2_induct)
     (simp_all add: group_count_def group_total_sol_def bucket_def)

lemma bucket_counts_sum:
  assumes "\<forall>a \<in> set samples. 0 \<le> sample_balance a"
  shows "sum_list (map (\<lambda>k. length (bucket k samples)) [0, 1, 2, 3, 4]) = length samples"
    and "sum_list (map (\<lambda>k. sum_list (map sample_balance (bucket k samples))) [0, 1, 2, 3, 4]) =
           sum_list (map sample_balance samples)"
  using assms by (induction samples) (auto simp: bucket_def cut_def)

lemma present_keys:
  assumes "\<forall>a \<in> set samples. sample_pubkey a \<noteq> JNone"
  shows "filter (\<lambda>a. sample_pubkey a \<noteq> JNone) (bucket k samples) = bucket k samples"
  using assms by (induction samples) (simp_all add: bucket_def)

lemma upt_0_5: "[0 ..< 5] = [0, 1, 2, 3, 4::nat]"
  by (simp add: upt_rec)

text \<open>
  Claim C4. A stake-account sample carries a public key and a balance; only its parsed
  data is optional. For every non-empty list of samples of the expected shape, stake
  aggregation returns: the totals are the number of input samples and the sum of their
  balances; the count of a bucket is the number of input samples whose balance lies in
  the bucket's interval and whose public key is not null (the count is taken on the
  \<^verbatim>\<open>pubkey\<close> column), and the amount of a bucket is the sum of the balances lying in
  its interval. So for samples with non-negative balances, each with a public key, the
  bucket counts sum to the number of input samples and the bucket amounts sum to the
  sum of the input balances. An absent or empty input gives empty lists and zero
  totals. Arithmetic is exact (rationals).
\<close>

theorem distribution_sums:
  "(\<not> truthy sa \<longrightarrow> process_stake_accounts sa = Inr empty_stake_info) \<and>
   (\<forall>samples. samples \<noteq> [] \<and> list_all shaped_account samples \<longrightarrow>
      (\<exists>info. process_stake_accounts (JList samples) = Inr info \<and>
         total_accounts info = length samples \<and>
         total_stake info = sum_list (map sample_balance samples) \<and>
         categories info = labels \<and>
         counts info =
           map (\<lambda>k. length (filter (\<lambda>a. sample_pubkey a \<noteq> JNone) (bucket k samples))) [0 ..< 5] \<and>
         amounts info = map (\<lambda>k. sum_list (map sample_balance (bucket k samples))) [0 ..< 5] \<and>
         ((\<forall>a \<in> set samples. 0 \<le> sample_balance a \<and> sample_pubkey a \<noteq> JNone) \<longrightarrow>
            sum_list (counts info) = length samples \<and>
            sum_list (amounts info) = sum_list (map sample_balance samples))))"
proof -
  have empty: "\<not> truthy sa \<longrightarrow> process_stake_accounts sa = Inr empty_stake_info"
    by (simp add: process_stake_accounts_def empty_stake_info_def)
  have full: "\<exists>info. process_stake_accounts (JList samples) = Inr info \<and>
         total_accounts info = length samples \<and>
         total_stake info = sum_list (map sample_balance samples) \<and>
         categories info = labels \<and>
         counts info =
           map (\<lambda>k. length (filter (\<lambda>a. sample_pubkey a \<noteq> JNone) (bucket k samples))) [0 ..< 5] \<and>
         amounts info = map (\<lambda>k. sum_list (map sample_balance (bucket k samples))) [0 ..< 5] \<and>
         ((\<forall>a \<in> set samples. 0 \<le> sample_balance a \<and> sample_pubkey a \<noteq> JNone) \<longrightarrow>
            sum_list (counts info) = length samples \<and>
            sum_list (amounts info) = sum_list (map sample_balance samples))"
    if h: "samples \<noteq> [] \<and> list_all shaped_account samples" for samples
  proof -
    from h shaped_samples[of samples] obtain df where
      df: "for_each stake_account_of samples = Inr df" and
      rel: "list_all2 (\<lambda>a x. balance x = sample_balance a \<and> pubkey x = sample_pubkey a) samples df"
      by blast
    note fr = frame_of_samples[OF rel]
    from h fr(1) have ne: "df \<noteq> []" by auto
    define info where "info =
        \<lparr> total_stake = sum_list (map balance df),
          total_accounts = length df,
          categories = labels,
          counts = map (group_count (\<lambda>a. pubkey a \<noteq> JNone) df) [0 ..< length labels],
          amounts = map (group_total_sol df) [0 ..< length labels],
          accounts = take 100 df \<rparr>"
    have run: "process_stake_accounts (JList samples) = Inr info"
      using h df ne unfolding info_def process_stake_accounts_def
      by (simp add: and_then_def)
    have ta: "total_accounts info = length samples"
      by (simp add: info_def fr(1))
    have ts: "total_stake info = sum_list (map sample_balance samples)"
      by (simp add: info_def fr(2))
    have cat: "categories info = labels"
      by (simp add: info_def)
    have cn: "counts info =
           map (\<lambda>k. length (filter (\<lambda>a. sample_pubkey a \<noteq> JNone) (bucket k samples))) [0 ..< 5]"
      unfolding info_def upt_5 upt_0_5 by (simp add: fr(3))
    have am: "amounts info = map (\<lambda>k. sum_list (map sample_balance (bucket k samples))) [0 ..< 5]"
      unfolding info_def upt_5 upt_0_5 by (simp add: fr(4))
    have sums: "sum_list (counts info) = length samples \<and>
            sum_list (amounts info) = sum_list (map sample_balance samples)"
      if ok: "\<forall>a \<in> set samples. 0 \<le> sample_balance a \<and> sample_pubkey a \<noteq> JNone"
    proof -
      from ok have nn: "\<forall>a \<in> set samples. 0 \<le> sample_balance a"
        and pk: "\<forall>a \<in> set samples. sample_pubkey a \<noteq> JNone"
        by simp_all
      have "sum_list (counts info) = length samples"
        unfolding cn upt_0_5 present_keys[OF pk] by (rule bucket_counts_sum(1)[OF nn])
      moreover have "sum_list (amounts info) = sum_list (map sample_balance samples)"
        unfolding am upt_0_5 by (rule bucket_counts_sum(2)[OF nn])
      ultimately show ?thesis by (rule conjI)
    qed
    then have sums': "(\<forall>a \<in> set samples. 0 \<le> sample_balance a \<and> sample_pubkey a \<noteq> JNone) \<longrightarrow>
            sum_list (counts info) = length samples \<and>
            sum_list (amounts info) = sum_list (map sample_balance samples)"
      by (rule impI)
    from run ta ts cat cn am sums' show ?thesis
      by (intro exI[of _ info] conjI)
  qed
  then have full': "\<forall>samples. samples \<noteq> [] \<and> list_all shaped_account samples \<longrightarrow>
      (\<exists>info. process_stake_accounts (JList samples) = Inr info \<and>
         total_accounts info = length samples \<and>
         total_stake info = sum_list (map sample_balance samples) \<and>
         categories info = labels \<and>
         counts info =
           map (\<lambda>k. length (filter (\<lambda>a. sample_pubkey a \<noteq> JNone) (bucket k samples))) [0 ..< 5] \<and>
         amounts info = map (\<lambda>k. sum_list (map sample_balance (bucket k samples))) [0 ..< 5] \<and>
         ((\<forall>a \<in> set samples. 0 \<le> sample_balance a \<and> sample_pubkey a \<noteq> JNone) \<longrightarrow>
            sum_list (counts info) = length samples \<and>
            sum_list (amounts info) = sum_list (map sample_balance samples)))"
    by (intro allI impI)
  from empty full' show ?thesis by (rule conjI)
qed

text \<open>
  Balances 5, 150, 150000 and 0 (a sample without fields) fall into the buckets as
  2, 1, 0, 0, 1; the counts sum to 4 and the amounts to 150155.
\<close>

theorem distribution_sums_witness:
  "process_stake_accounts JNone = Inr empty_stake_info \<and>
   process_stake_accounts (JList []) = Inr empty_stake_info \<and>
   (\<exists>info. process_stake_accounts stake_example = Inr info \<and>
      map sample_balance
        [account_with_balance ''a'' 5, account_with_balance ''b'' 150,
         account_with_balance ''c'' 150000, JDict []] = [5, 150, 150000, 0] \<and>
      total_accounts info = 4 \<and> total_stake info = 150155 \<and>
      counts info = [2, 1, 0, 0, 1] \<and> amounts info = [5, 150, 0, 0, 150000] \<and>
      sum_list (counts info) = 4 \<and> sum_list (amounts info) = 150155)"
proof -
  let ?samples = "[account_with_balance ''a'' 5, account_with_balance ''b'' 150,
         account_with_balance ''c'' 150000, JDict []]"
  have sh: "?samples \<noteq> [] \<and> list_all shaped_account ?samples"
    by code_simp
  have ok: "\<forall>a \<in> set ?samples. 0 \<le> sample_balance a \<and> sample_pubkey a \<noteq> JNone"
    by code_simp
  have bal: "map sample_balance ?samples = [5, 150, 150000, 0]"
    by code_simp
  have cn: "map (\<lambda>k. length (filter (\<lambda>a. sample_pubkey a \<noteq> JNone) (bucket k ?samples))) [0 ..< 5] =
      [2, 1, 0, 0, 1]"
    by code_simp
  have am: "map (\<lambda>k. sum_list (map sample_balance (bucket k ?samples))) [0 ..< 5] =
      [5, 150, 0, 0, 150000]"
    by code_simp
  from distribution_sums[of JNone, THEN conjunct2, rule_format, OF sh] obtain info where
    info: "process_stake_accounts (JList ?samples) = Inr info"
      "total_accounts info = length ?samples"
      "total_stake info = sum_list (map sample_balance ?samples)"
      "counts info =
         map (\<lambda>k. length (filter (\<lambda>a. sample_pubkey a \<noteq> JNone) (bucket k ?samples))) [0 ..< 5]"
      "amounts info = map (\<lambda>k. sum_list (map sample_balance (bucket k ?samples))) [0 ..< 5]"
      "(\<forall>a \<in> set ?samples. 0 \<le> sample_balance a \<and> sample_pubkey a \<noteq> JNone) \<longrightarrow>
            sum_list (counts info) = length ?samples \<and>
            sum_list (amounts info) = sum_list (map sample_balance ?samples)"
    by blast
  from info(6) ok have sums: "sum_list (counts info) = length ?samples"
    "sum_list (amounts info) = sum_list (map sample_balance ?samples)"
    by blast+
  have none: "process_stake_accounts JNone = Inr empty_stake_info"
    using distribution_sums[of JNone, THEN conjunct1] by simp
  have nil: "process_stake_accounts (JList []) = Inr empty_stake_info"
    using distribution_sums[of "JList []", THEN conjunct1] by simp
  have full: "\<exists>info. process_stake_accounts stake_example = Inr info \<and>
      map sample_balance ?samples = [5, 150, 150000, 0] \<and>
      total_accounts info = 4 \<and> total_stake info = 150155 \<and>
      counts info = [2, 1, 0, 0, 1] \<and> amounts info = [5, 150, 0, 0, 150000] \<and>
      sum_list (counts info) = 4 \<and> sum_list (amounts info) = 150155"
    using info(1,2,3) info(4)[unfolded cn] info(5)[unfolded am] sums bal
    by (intro exI[of _ info]) (simp add: stake_example_def)
  from none nil full show ?thesis by (intro conjI)
qed

section \<open>Stake concentration of the validator table\<close>

lemma concentration_formula:
  assumes "process_network_info ni df = Inr out"
  shows "concentration_top10 out =
           (if 0 < sum_list (map activatedStake df)
            then sum_list (take 10 (rev (sort (map activatedStake df)))) /
                 sum_list (map activatedStake df) * 100
            else 0)"
    and "concentration_top20 out =
           (if 0 < sum_list (map activatedStake df)
            then sum_list (take 20 (rev (sort (map activatedStake df)))) /
                 sum_list (map activatedStake df) * 100
            else 0)"
    and "concentration_top50 out =
           (if 0 < sum_list (map activatedStake df)
            then sum_list (take 50 (rev (sort (map activatedStake df)))) /
                 sum_list (map activatedStake df) * 100
            else 0)"
  by (cases "df = []"; simp add: process_network_info_concentration[OF assms] stake_top_def)+

lemma concentration_ordered:
  assumes "process_network_info ni df = Inr out" and "\<forall>r \<in> set df. 0 \<le> activatedStake r"
  shows "concentration_top10 out \<le> concentration_top20 out \<and>
         concentration_top20 out \<le> concentration_top50 out \<and>
         concentration_top50 out \<le> 100"
  using stake_top_bounds[OF assms(2), of 10 20] stake_top_bounds[OF assms(2), of 20 50]
  by (simp add: process_network_info_concentration[OF assms(1)])

lemma stakes_not_negative:
  assumes "process_validators vi ni = Inr rows" and "all_validators vi = Inr vs"
    and "\<forall>v \<in> set vs. \<forall>s. activated_stake_sol v = Inr s \<longrightarrow> 0 \<le> s"
  shows "\<forall>r \<in> set rows. 0 \<le> activatedStake r"
proof
  fix r assume "r \<in> set rows"
  then obtain i where i: "i < length rows" "rows ! i = r" by (auto simp: in_set_conv_nth)
  have len: "length rows = length vs" by (rule rows_length[OF assms(1,2)])
  with i have iv: "i < length vs" by simp
  from process_validator_fields[OF row_of_validator(1)[OF assms(1,2) iv]]
  have "activated_stake_sol (vs ! i) = Inr (activatedStake (rows ! i))"
    by (simp only: truncate_fields)
  with assms(3) iv have "0 \<le> activatedStake (rows ! i)" by (metis nth_mem)
  with i show "0 \<le> activatedStake r" by simp
qed

text \<open>
  Claim C3, over exact arithmetic. Network aggregation returns for every network
  information of the expected shape, whatever the validator table. Each concentration
  percentage is the sum of the 10, 20 or 50 largest stakes of the table divided by the
  sum of all its stakes, times 100, and 0 when that sum is not positive. For a table
  whose stakes are not negative (the empty table included) this gives
  top10 \<open>\<le>\<close> top20 \<open>\<le>\<close> top50 \<open>\<le>\<close> 100, and so for the summary the aggregator
  computes from any validator list whose activated stakes are not negative.
\<close>

theorem concentration_monotone:
  "(shaped_network_info ni \<longrightarrow> (\<exists>out. process_network_info ni df = Inr out)) \<and>
   (\<forall>out. process_network_info ni df = Inr out \<longrightarrow>
      concentration_top10 out =
        (if 0 < sum_list (map activatedStake df)
         then sum_list (take 10 (rev (sort (map activatedStake df)))) /
              sum_list (map activatedStake df) * 100
         else 0) \<and>
      concentration_top20 out =
        (if 0 < sum_list (map activatedStake df)
         then sum_list (take 20 (rev (sort (map activatedStake df)))) /
              sum_list (map activatedStake df) * 100
         else 0) \<and>
      concentration_top50 out =
        (if 0 < sum_list (map activatedStake df)
         then sum_list (take 50 (rev (sort (map activatedStake df)))) /
              sum_list (map activatedStake df) * 100
         else 0) \<and>
      ((\<forall>r \<in> set df. 0 \<le> activatedStake r) \<longrightarrow>
         concentration_top10 out \<le> concentration_top20 out \<and>
         concentration_top20 out \<le> concentration_top50 out \<and>
         concentration_top50 out \<le> 100)) \<and>
   (\<forall>p vs. DataProcessor vi ni sa = Inr p \<and> all_validators vi = Inr vs \<and>
      (\<forall>v \<in> set vs. \<forall>s. activated_stake_sol v = Inr s \<longrightarrow> 0 \<le> s) \<longrightarrow>
      concentration_top10 (processed_network_info p) \<le> concentration_top20 (processed_network_info p) \<and>
      concentration_top20 (processed_network_info p) \<le> concentration_top50 (processed_network_info p) \<and>
      concentration_top50 (processed_network_info p) \<le> 100)"
proof -
  have total: "shaped_network_info ni \<longrightarrow> (\<exists>out. process_network_info ni df = Inr out)"
    using shaped_process_network_info[of ni df] by blast
  have run: "concentration_top10 out =
        (if 0 < sum_list (map activatedStake df)
         then sum_list (take 10 (rev (sort (map activatedStake df)))) /
              sum_list (map activatedStake df) * 100
         else 0) \<and>
      concentration_top20 out =
        (if 0 < sum_list (map activatedStake df)
         then sum_list (take 20 (rev (sort (map activatedStake df)))) /
              sum_list (map activatedStake df) * 100
         else 0) \<and>
      concentration_top50 out =
        (if 0 < sum_list (map activatedStake df)
         then sum_list (take 50 (rev (sort (map activatedStake df)))) /
              sum_list (map activatedStake df) * 100
         else 0) \<and>
      ((\<forall>r \<in> set df. 0 \<le> activatedStake r) \<longrightarrow>
         concentration_top10 out \<le> concentration_top20 out \<and>
         concentration_top20 out \<le> concentration_top50 out \<and>
         concentration_top50 out \<le> 100)"
    if r: "process_network_info ni df = Inr out" for out
  proof -
    have "(\<forall>r \<in> set df. 0 \<le> activatedStake r) \<longrightarrow>
         concentration_top10 out \<le> concentration_top20 out \<and>
         concentration_top20 out \<le> concentration_top50 out \<and>
         concentration_top50 out \<le> 100"
      using concentration_ordered[OF r] by (rule impI)
    with concentration_formula[OF r] show ?thesis by (intro conjI)
  qed
  then have run': "\<forall>out. process_network_info ni df = Inr out \<longrightarrow>
      concentration_top10 out =
        (if 0 < sum_list (map activatedStake df)
         then sum_list (take 10 (rev (sort (map activatedStake df)))) /
              sum_list (map activatedStake df) * 100
         else 0) \<and>
      concentration_top20 out =
        (if 0 < sum_list (map activatedStake df)
         then sum_list (take 20 (rev (sort (map activatedStake df)))) /
              sum_list (map activatedStake df) * 100
         else 0) \<and>
      concentration_top50 out =
        (if 0 < sum_list (map activatedStake df)
         then sum_list (take 50 (rev (sort (map activatedStake df)))) /
              sum_list (map activatedStake df) * 100
         else 0) \<and>
      ((\<forall>r \<in> set df. 0 \<le> activatedStake r) \<longrightarrow>
         concentration_top10 out \<le> concentration_top20 out \<and>
         concentration_top20 out \<le> concentration_top50 out \<and>
         concentration_top50 out \<le> 100)"
    by (intro allI impI)
  have whole: "concentration_top10 (processed_network_info p) \<le> concentration_top20 (processed_network_info p) \<and>
      concentration_top20 (processed_network_info p) \<le> concentration_top50 (processed_network_info p) \<and>
      concentration_top50 (processed_network_info p) \<le> 100"
    if h: "DataProcessor vi ni sa = Inr p \<and> all_validators vi = Inr vs \<and>
      (\<forall>v \<in> set vs. \<forall>s. activated_stake_sol v = Inr s \<longrightarrow> 0 \<le> s)"
    for p vs
  proof -
    from h have d: "DataProcessor vi ni sa = Inr p" and vs: "all_validators vi = Inr vs"
      and nn: "\<forall>v \<in> set vs. \<forall>s. activated_stake_sol v = Inr s \<longrightarrow> 0 \<le> s"
      by simp_all
    from stakes_not_negative[OF DataProcessor_parts(1)[OF d] vs nn]
    have "\<forall>r \<in> set (processed_validators p). 0 \<le> activatedStake r" .
    from concentration_ordered[OF DataProcessor_network[OF d] this] show ?thesis .
  qed
  then have whole': "\<forall>p vs. DataProcessor vi ni sa = Inr p \<and> all_validators vi = Inr vs \<and>
      (\<forall>v \<in> set vs. \<forall>s. activated_stake_sol v = Inr s \<longrightarrow> 0 \<le> s) \<longrightarrow>
      concentration_top10 (processed_network_info p) \<le> concentration_top20 (processed_network_info p) \<and>
      concentration_top20 (processed_network_info p) \<le> concentration_top50 (processed_network_info p) \<and>
      concentration_top50 (processed_network_info p) \<le> 100"
    by (intro allI impI)
  from total run' whole' show ?thesis by (intro conjI)
qed

text \<open>
  Eleven rows with stakes 3, 1, ..., 1 (total 13): the ten largest hold 12/13 of the
  stake, the twenty and the fifty largest hold all of it.
\<close>

theorem concentration_monotone_witness:
  "\<exists>out. process_network_info (JDict []) eleven_rows = Inr out \<and>
      concentration_top10 out = 1200 / 13 \<and>
      concentration_top20 out = 100 \<and>
      concentration_top50 out = 100 \<and>
      concentration_top10 out \<le> concentration_top20 out \<and>
      concentration_top20 out \<le> concentration_top50 out \<and>
      concentration_top50 out \<le> 100"
proof -
  have sh: "shaped_network_info (JDict [])"
    by code_simp
  have nn: "\<forall>r \<in> set eleven_rows. 0 \<le> activatedStake r"
    by code_simp
  have st: "map activatedStake eleven_rows = [3, 1, 1, 1, 1, 1, 1, 1, 1, 1, 1]"
    by code_simp
  have srt: "rev (sort [3, 1, 1, 1, 1, 1, 1, 1, 1, 1, 1 :: rat]) = [3, 1, 1, 1, 1, 1, 1, 1, 1, 1, 1]"
    by code_simp
  note inst = concentration_monotone[of "JDict []" eleven_rows JNone JNone]
  from inst[THEN conjunct1] sh obtain out where
    out: "process_network_info (JDict []) eleven_rows = Inr out" by blast
  note at = inst[THEN conjunct2, THEN conjunct1, rule_format, OF out]
  have t10: "concentration_top10 out = 1200 / 13"
    using at[THEN conjunct1] unfolding st srt by simp
  have t20: "concentration_top20 out = 100"
    using at[THEN conjunct2, THEN conjunct1] unfolding st srt by simp
  have t50: "concentration_top50 out = 100"
    using at[THEN conjunct2, THEN conjunct2, THEN conjunct1] unfolding st srt by simp
  from at[THEN conjunct2, THEN conjunct2, THEN conjunct2] nn
  have ord: "concentration_top10 out \<le> concentration_top20 out \<and>
      concentration_top20 out \<le> concentration_top50 out \<and>
      concentration_top50 out \<le> 100"
    by blast
  show ?thesis
    using out t10 t20 t50 ord by (intro exI[of _ out]) simp
qed

text \<open>
  Claim C3 as stated fails in the double-precision arithmetic of the code. Three
  validators with activated stakes 582.6, 380.4 and 832.3 tokens: the stake column
  adds up to 1795.3 in table order (the total) and to 1795.3000000000002 in descending
  order (the head of the sorted table), so the quotient times 100 is
  \<^verbatim>\<open>100 + 2**-45\<close>, which prints as 100.00000000000003: top50 lies above
  100. Over exact rationals the same stakes give exactly 100.
\<close>

theorem rounded_concentration_exceeds_100:
  "map float_stake_sol rounding_example =
     [5124603794738381 / 2 ^ 43, 3346033785647923 / 2 ^ 43, 3660494111191859 / 2 ^ 42] \<and>
   float_stake_top 50 (map float_stake_sol rounding_example) = 100 + 1 / 2 ^ 45 \<and>
   100 < float_stake_top 50 (map float_stake_sol rounding_example) \<and>
   stake_top 50 (map (\<lambda>n. row_with_stake (of_int n / 10 ^ 9)) rounding_example)
     (sum_list (map (\<lambda>n. of_int n / 10 ^ 9) rounding_example)) = 100"
  by code_simp

end
